theory Spec2Isabelle
  imports Complex_Main
begin

section \<open>Moon-day generator: data model and external libraries\<close>

text \<open>
  The repository consists of two Python scripts, \<^verbatim>\<open>generator/generator.py\<close> and
  \<^verbatim>\<open>one_year_table/year_moon_days.py\<close>.  Both delegate all astronomy to the
  \<^verbatim>\<open>swisseph\<close> library, all time-zone arithmetic to \<^verbatim>\<open>pytz\<close> and all calendar
  arithmetic to \<^verbatim>\<open>datetime\<close>.  None of these libraries is part of the repository, so
  every call into them is a field of the record \<open>libs\<close> below; the scripts' own functions
  take this record as their first argument.  A library call that raises is a result \<open>Inl e\<close>.

  Conventions of the embedding:
  \<^item> a \<^verbatim>\<open>datetime.date\<close> is its proleptic Gregorian ordinal (an \<open>int\<close>), so that
    \<^verbatim>\<open>d + timedelta(days=1)\<close> is \<open>d + 1\<close>, \<^verbatim>\<open>(d - e).days\<close> is \<open>d - e\<close> and the order
    on dates is the order on ordinals; the fields \<^verbatim>\<open>year, month, day\<close> are computed by
    the library (\<open>date_ymd\<close>);
  \<^item> a Python \<^verbatim>\<open>int\<close> is an \<open>int\<close>;
  \<^item> a Python \<^verbatim>\<open>float\<close> is the real number that the double denotes.  Every arithmetic
    operation on floats rounds its exact result to a double; this rounding is the field
    \<open>rnd\<close> of \<open>libs\<close>, so that the scripts are modelled for every rounding.  The rounding
    of CPython is \<open>round_double\<close> below (IEEE-754 binary64, to nearest, ties to even).
    Infinities and NaN are not modelled.
\<close>

datatype exn =
    SweError string
  | UnknownTimeZoneError string
  | ValueError string
  | IndexError
  | KeyError string

datatype tzinfo = Tz string

definition pytz_UTC :: tzinfo where
  "pytz_UTC = Tz ''UTC''"

record datetime =
  year :: int
  month :: int
  day :: int
  hour :: int
  minute :: int
  second :: int
  tzinfo :: "tzinfo option"

datatype planet = SUN | MOON

datatype rsmi = CALC_RISE

datatype calflag = GREG_CAL

record libs =
  pytz_timezone :: "string \<Rightarrow> exn + tzinfo"
  tz_localize :: "tzinfo \<Rightarrow> datetime \<Rightarrow> exn + datetime"
  astimezone :: "datetime \<Rightarrow> tzinfo \<Rightarrow> exn + datetime"
  dt_datetime :: "int \<Rightarrow> int \<Rightarrow> int \<Rightarrow> int \<Rightarrow> int \<Rightarrow> int \<Rightarrow> tzinfo option \<Rightarrow> exn + datetime"
  date_ymd :: "int \<Rightarrow> int \<times> int \<times> int"
  swe_julday :: "int \<Rightarrow> int \<Rightarrow> int \<Rightarrow> real \<Rightarrow> exn + real"
  swe_calc_ut :: "real \<Rightarrow> planet \<Rightarrow> exn + real"
  swe_rise_trans :: "real \<Rightarrow> planet \<Rightarrow> rsmi \<Rightarrow> real \<times> real \<times> real \<Rightarrow> real \<Rightarrow> real \<Rightarrow> exn + real"
  swe_revjul :: "real \<Rightarrow> calflag \<Rightarrow> exn + int \<times> int \<times> int \<times> real"
  rnd :: "real \<Rightarrow> real"

text \<open>
  \<open>swe_calc_ut\<close> stands for \<^verbatim>\<open>swe.calc_ut(jd, body)[0][0]\<close> (the ecliptic longitude),
  \<open>swe_rise_trans\<close> for the component \<^verbatim>\<open>tret[0]\<close> of \<^verbatim>\<open>swe.rise_trans(...)\<close>.
\<close>

subsection \<open>Exceptions as results\<close>

definition bind :: "exn + 'a \<Rightarrow> ('a \<Rightarrow> exn + 'b) \<Rightarrow> exn + 'b" where
  "bind m f = (case m of Inl e \<Rightarrow> Inl e | Inr x \<Rightarrow> f x)"

fun mapM :: "('a \<Rightarrow> exn + 'b) \<Rightarrow> 'a list \<Rightarrow> exn + 'b list" where
  "mapM f [] = Inr []"
| "mapM f (x # xs) = bind (f x) (\<lambda>y. bind (mapM f xs) (\<lambda>ys. Inr (y # ys)))"

subsection \<open>Python arithmetic\<close>

definition py_int :: "real \<Rightarrow> int" where
  \<comment> \<open>\<^verbatim>\<open>int(x)\<close> on a float truncates towards zero.\<close>
  "py_int x = (if 0 \<le> x then \<lfloor>x\<rfloor> else \<lceil>x\<rceil>)"

definition float_add :: "libs \<Rightarrow> real \<Rightarrow> real \<Rightarrow> real" where
  \<comment> \<open>\<^verbatim>\<open>x + y\<close>\<close>
  "float_add L x y = rnd L (x + y)"

definition float_sub :: "libs \<Rightarrow> real \<Rightarrow> real \<Rightarrow> real" where
  \<comment> \<open>\<^verbatim>\<open>x - y\<close>\<close>
  "float_sub L x y = rnd L (x - y)"

definition float_mul :: "libs \<Rightarrow> real \<Rightarrow> real \<Rightarrow> real" where
  \<comment> \<open>\<^verbatim>\<open>x * y\<close>\<close>
  "float_mul L x y = rnd L (x * y)"

definition float_truediv :: "libs \<Rightarrow> real \<Rightarrow> real \<Rightarrow> real" where
  \<comment> \<open>\<^verbatim>\<open>x / y\<close>, for a divisor other than zero\<close>
  "float_truediv L x y = rnd L (x / y)"

definition c_fmod :: "real \<Rightarrow> real \<Rightarrow> real" where
  \<comment> \<open>\<^verbatim>\<open>fmod(x, y)\<close> of C: exact, the quotient truncated towards zero.\<close>
  "c_fmod x y = x - y * of_int (if 0 \<le> x / y then \<lfloor>x / y\<rfloor> else \<lceil>x / y\<rceil>)"

text \<open>
  \<^verbatim>\<open>x % y\<close> and \<^verbatim>\<open>x // y\<close> on floats, as CPython computes them (\<^verbatim>\<open>float_rem\<close> and
  \<^verbatim>\<open>_float_div_mod\<close> of \<^verbatim>\<open>floatobject.c\<close>), for a divisor other than zero: the remainder
  of \<^verbatim>\<open>fmod\<close> is moved to the sign of the divisor by a rounded addition, and the quotient
  is snapped to a nearby integral value.
\<close>

definition float_mod :: "libs \<Rightarrow> real \<Rightarrow> real \<Rightarrow> real" where
  "float_mod L x y =
     (let m = c_fmod x y
      in if m \<noteq> 0 \<and> (y < 0) \<noteq> (m < 0) then float_add L m y else m)"

definition float_floordiv :: "libs \<Rightarrow> real \<Rightarrow> real \<Rightarrow> real" where
  "float_floordiv L x y =
     (let m = c_fmod x y;
          q0 = float_truediv L (float_sub L x m) y;
          q = (if m \<noteq> 0 \<and> (y < 0) \<noteq> (m < 0) then float_sub L q0 1 else q0)
      in if q \<noteq> 0
         then (let f = of_int \<lfloor>q\<rfloor> in if float_sub L q f > 1 / 2 then float_add L f 1 else f)
         else 0)"

subsection \<open>The rounding of IEEE-754 doubles\<close>

text \<open>
  A double has 53 significant bits and a least exponent of \<open>-1022\<close>, below which the
  spacing of the doubles stays \<open>2 powr -1074\<close>.  \<open>round_double\<close> takes a real number to
  the nearest double, a tie to the one with an even significand.  Overflow (a magnitude
  of \<open>2 powr 1024\<close> or more) is not modelled.
\<close>

definition round_half_even :: "real \<Rightarrow> int" where
  "round_half_even q =
     (let f = \<lfloor>q\<rfloor>; r = q - of_int f
      in if r < 1 / 2 then f else if 1 / 2 < r then f + 1 else if even f then f else f + 1)"

definition round_double :: "real \<Rightarrow> real" where
  "round_double x =
     (if x = 0 then 0
      else let e = max \<lfloor>log 2 \<bar>x\<bar>\<rfloor> (- 1022);
               ulp = 2 powr of_int (e - 52)
           in of_int (round_half_even (x / ulp)) * ulp)"

section \<open>generator.py\<close>

subsection \<open>Configuration\<close>

definition START_DATE :: int where
  \<comment> \<open>\<^verbatim>\<open>dt.date(2026, 1, 1)\<close>\<close>
  "START_DATE = 739617"

definition END_DATE :: int where
  \<comment> \<open>\<^verbatim>\<open>dt.date(2101, 1, 1)\<close>\<close>
  "END_DATE = 767010"

definition MASTER_CITY :: string where
  "MASTER_CITY = ''Mysuru''"

definition LOCAL_CITY :: string where
  "LOCAL_CITY = ''Astana''"

definition TITHI_DEG :: real where
  "TITHI_DEG = 12"

definition PURNIMA :: int where
  "PURNIMA = 15"

definition AMAVASYA :: int where
  "AMAVASYA = 30"

record city =
  lat :: real
  lon :: real
  tz :: string

definition CITIES :: "(string \<times> city) list" where
  "CITIES =
    [(''Mysuru'', \<lparr>lat = 12.2958, lon = 76.6394, tz = ''Asia/Kolkata''\<rparr>),
     (''Moscow'', \<lparr>lat = 55.7558, lon = 37.6173, tz = ''Europe/Moscow''\<rparr>),
     (''Saint-Petersburg'', \<lparr>lat = 59.9343, lon = 30.3351, tz = ''Europe/Moscow''\<rparr>),
     (''Yekaterinburg'', \<lparr>lat = 56.8389, lon = 60.6057, tz = ''Asia/Yekaterinburg''\<rparr>),
     (''Krasnaya Polyana'', \<lparr>lat = 43.6828, lon = 40.2596, tz = ''Europe/Moscow''\<rparr>),
     (''Novosibirsk'', \<lparr>lat = 55.0084, lon = 82.9357, tz = ''Asia/Novosibirsk''\<rparr>),
     (''Minsk'', \<lparr>lat = 53.9006, lon = 27.5590, tz = ''Europe/Minsk''\<rparr>),
     (''Kyiv'', \<lparr>lat = 50.4501, lon = 30.5234, tz = ''Europe/Kyiv''\<rparr>),
     (''Astana'', \<lparr>lat = 51.1694, lon = 71.4491, tz = ''Asia/Almaty''\<rparr>),
     (''Almaty'', \<lparr>lat = 43.2389, lon = 76.8897, tz = ''Asia/Almaty''\<rparr>)]"

definition KIND_PURNIMA :: int where
  "KIND_PURNIMA = 0"

definition KIND_AMAVASYA :: int where
  "KIND_AMAVASYA = 1"

definition KIND_KSHAYA_PURNIMA :: int where
  "KIND_KSHAYA_PURNIMA = 2"

definition KIND_KSHAYA_AMAVASYA :: int where
  "KIND_KSHAYA_AMAVASYA = 3"

record moon_event =
  index :: int
  date :: int
  kind :: int

subsection \<open>Astronomy\<close>

definition julian_day :: "libs \<Rightarrow> datetime \<Rightarrow> exn + real" where
  "julian_day L dt_utc =
     swe_julday L (year dt_utc) (month dt_utc) (day dt_utc)
       (float_add L (float_add L (of_int (hour dt_utc)) (float_truediv L (of_int (minute dt_utc)) 60))
          (float_truediv L (of_int (second dt_utc)) 3600))"

definition tithi_at_jd :: "libs \<Rightarrow> real \<Rightarrow> exn + int" where
  "tithi_at_jd L jd =
     bind (swe_calc_ut L jd SUN) (\<lambda>sun.
     bind (swe_calc_ut L jd MOON) (\<lambda>moon.
       let diff = float_mod L (float_sub L moon sun) 360
       in Inr (py_int (float_floordiv L diff TITHI_DEG) + 1)))"

definition local_sunrise :: "libs \<Rightarrow> int \<Rightarrow> city \<Rightarrow> exn + datetime" where
  "local_sunrise L d c =
     bind (pytz_timezone L (tz c)) (\<lambda>tzi.
     bind (case date_ymd L d of (y0, m0, d0) \<Rightarrow> dt_datetime L y0 m0 d0 0 0 0 None) (\<lambda>naive.
     bind (tz_localize L tzi naive) (\<lambda>local_midnight.
     bind (astimezone L local_midnight pytz_UTC) (\<lambda>utc_midnight.
     bind (julian_day L utc_midnight) (\<lambda>jd0.
     bind (swe_rise_trans L jd0 SUN CALC_RISE (lon c, lat c, 0) 0 0) (\<lambda>jd_rise.
     bind (swe_revjul L jd_rise GREG_CAL) (\<lambda>(y, m, dd, h).
       let hh = py_int h;
           mm = py_int (float_mul L (float_sub L h (of_int hh)) 60);
           ss = py_int (float_mul L
                  (float_sub L (float_mul L (float_sub L h (of_int hh)) 60) (of_int mm)) 60)
       in bind (dt_datetime L y m dd hh mm ss (Some pytz_UTC)) (\<lambda>sunrise_utc.
            astimezone L sunrise_utc tzi))))))))"

subsection \<open>Event detection\<close>

definition detect_event :: "libs \<Rightarrow> int \<Rightarrow> city \<Rightarrow> exn + int option" where
  "detect_event L d c =
     bind (local_sunrise L d c) (\<lambda>sr0.
     bind (local_sunrise L (d + 1) c) (\<lambda>sr1.
     bind (astimezone L sr0 pytz_UTC) (\<lambda>utc0.
     bind (julian_day L utc0) (\<lambda>jd0.
     bind (astimezone L sr1 pytz_UTC) (\<lambda>utc1.
     bind (julian_day L utc1) (\<lambda>jd1.
     bind (tithi_at_jd L jd0) (\<lambda>t0.
     bind (tithi_at_jd L jd1) (\<lambda>t1.
       if t0 = PURNIMA then Inr (Some KIND_PURNIMA)
       else if t0 = AMAVASYA then Inr (Some KIND_AMAVASYA)
       else
         let diff = (t1 - t0) mod 30 in
         if diff > 1 then
           let skipped = map (\<lambda>i. (t0 + i - 1) mod 30 + 1) [1..diff - 1] in
           if PURNIMA \<in> set skipped then Inr (Some KIND_KSHAYA_PURNIMA)
           else if AMAVASYA \<in> set skipped then Inr (Some KIND_KSHAYA_AMAVASYA)
           else Inr None
         else Inr None))))))))"

text \<open>
  The body of the \<^verbatim>\<open>while\<close> loop of \<^verbatim>\<open>generate_moon_days\<close>: the loop state is the pair
  of the list \<^verbatim>\<open>events\<close> and of \<^verbatim>\<open>last_date\<close>.  An exception of \<open>detect_event\<close> leaves the
  body before anything is appended.
\<close>

definition scan_step ::
    "libs \<Rightarrow> city \<Rightarrow> int \<Rightarrow> moon_event list \<times> int option \<Rightarrow> exn + moon_event list \<times> int option" where
  "scan_step L c d st =
     (case st of (events, last_date) \<Rightarrow>
        bind (detect_event L d c) (\<lambda>k.
          case k of
            None \<Rightarrow> Inr (events, last_date)
          | Some kd \<Rightarrow>
              if (case last_date of None \<Rightarrow> True | Some l \<Rightarrow> d - l \<ge> 2)
              then Inr (events @ [\<lparr>index = int (length events), date = d, kind = kd\<rparr>], Some d)
              else Inr (events, last_date)))"

function scan_days ::
    "libs \<Rightarrow> city \<Rightarrow> int \<Rightarrow> moon_event list \<times> int option \<Rightarrow> exn + moon_event list" where
  "scan_days L c d st =
     (if d \<le> END_DATE
      then (case scan_step L c d st of Inl e \<Rightarrow> Inl e | Inr st' \<Rightarrow> scan_days L c (d + 1) st')
      else Inr (fst st))"
  by pat_completeness auto
termination
  by (relation "measure (\<lambda>(L, c, d, st). nat (END_DATE + 1 - d))") auto

definition generate_moon_days :: "libs \<Rightarrow> city \<Rightarrow> exn + moon_event list" where
  "generate_moon_days L c = scan_days L c START_DATE ([], None)"

subsection \<open>Formatting helpers of Python\<close>

definition digit_char :: "nat \<Rightarrow> char" where
  "digit_char n = char_of (48 + n)"

function digits_of :: "nat \<Rightarrow> string" where
  "digits_of n = (if n < 10 then [digit_char n] else digits_of (n div 10) @ [digit_char (n mod 10)])"
  by pat_completeness auto
termination
  by (relation "measure id") auto

definition str_int :: "int \<Rightarrow> string" where
  \<comment> \<open>\<^verbatim>\<open>f"{i}"\<close>\<close>
  "str_int i = (if i < 0 then CHR ''-'' # digits_of (nat (- i)) else digits_of (nat i))"

definition fmt_0d :: "nat \<Rightarrow> int \<Rightarrow> string" where
  \<comment> \<open>\<^verbatim>\<open>f"{i:0wd}"\<close>: zeros are filled in after the sign, up to the width \<open>w\<close>.\<close>
  "fmt_0d w i =
     (if i < 0
      then CHR ''-'' # replicate (w - 1 - length (digits_of (nat (- i)))) CHR ''0'' @ digits_of (nat (- i))
      else replicate (w - length (digits_of (nat i))) CHR ''0'' @ digits_of (nat i))"

definition py_index :: "'a list \<Rightarrow> int \<Rightarrow> exn + 'a" where
  \<comment> \<open>\<^verbatim>\<open>xs[i]\<close>: a negative index counts from the end, an index out of range raises.\<close>
  "py_index xs i =
     (if 0 \<le> i \<and> i < int (length xs) then Inr (xs ! nat i)
      else if - int (length xs) \<le> i \<and> i < 0 then Inr (xs ! nat (i + int (length xs)))
      else Inl IndexError)"

definition dict_getitem :: "(string \<times> 'v) list \<Rightarrow> string \<Rightarrow> exn + 'v" where
  \<comment> \<open>\<^verbatim>\<open>d[key]\<close> on a dictionary with string keys, kept as an association list in insertion order.\<close>
  "dict_getitem d key = (case map_of d key of None \<Rightarrow> Inl (KeyError key) | Some v \<Rightarrow> Inr v)"

subsection \<open>CSV output\<close>

definition MONTHS :: "string list" where
  "MONTHS = ['''', ''Jan'', ''Feb'', ''Mar'', ''Apr'', ''May'', ''Jun'',
             ''Jul'', ''Aug'', ''Sep'', ''Oct'', ''Nov'', ''Dec'']"

definition KSHAYA_MARK :: string where
  \<comment> \<open>The reference mark U+203B, in UTF-8.\<close>
  "KSHAYA_MARK = [char_of (0xE2 :: nat), char_of (0x80 :: nat), char_of (0xBB :: nat)]"

definition is_kshaya :: "int \<Rightarrow> bool" where
  "is_kshaya k \<longleftrightarrow> k \<in> {KIND_KSHAYA_PURNIMA, KIND_KSHAYA_AMAVASYA}"

definition kind_label :: "int \<Rightarrow> exn + string" where
  "kind_label k =
     (if k \<in> {KIND_PURNIMA, KIND_KSHAYA_PURNIMA} then Inr ''PURNIMA''
      else if k \<in> {KIND_AMAVASYA, KIND_KSHAYA_AMAVASYA} then Inr ''AMAVASYA''
      else Inl (ValueError ''Unknown kind''))"

definition fmt_date :: "libs \<Rightarrow> moon_event \<Rightarrow> exn + string" where
  "fmt_date L e =
     (case date_ymd L (date e) of (y, m, d) \<Rightarrow>
        bind (py_index MONTHS m) (\<lambda>mon. Inr (fmt_0d 2 d @ '' '' @ mon @ '' '' @ str_int y)))"

definition index_map :: "moon_event list \<Rightarrow> (int \<rightharpoonup> moon_event)" where
  \<comment> \<open>\<^verbatim>\<open>{e.index: e for e in events}\<close>\<close>
  "index_map events = foldl (\<lambda>m e. m(index e \<mapsto> e)) Map.empty events"

definition all_city_events :: "libs \<Rightarrow> exn + (string \<times> moon_event list) list" where
  "all_city_events L =
     mapM (\<lambda>(name, c). bind (generate_moon_days L c) (\<lambda>events. Inr (name, events))) CITIES"

text \<open>The body of the loop over the other cities: one cell of a row.\<close>

definition csv_cell :: "libs \<Rightarrow> string \<Rightarrow> moon_event option \<Rightarrow> exn + string" where
  "csv_cell L ref_date ev =
     (case ev of
        None \<Rightarrow> Inr ''''
      | Some e \<Rightarrow>
          bind (fmt_date L e) (\<lambda>city_date.
            if is_kshaya (kind e) then Inr KSHAYA_MARK
            else if city_date = ref_date then Inr ''''
            else Inr city_date))"

text \<open>The body of the loop over the events of the master city: one row.\<close>

definition csv_row ::
    "libs \<Rightarrow> (string \<times> (int \<rightharpoonup> moon_event)) list \<Rightarrow> string list \<Rightarrow> moon_event \<Rightarrow> exn + string list" where
  "csv_row L maps city_names ref =
     bind (kind_label (kind ref)) (\<lambda>label0.
       let label = (if is_kshaya (kind ref) then label0 @ '' '' @ KSHAYA_MARK else label0) in
       bind (fmt_date L ref) (\<lambda>ref_date.
       bind (mapM (\<lambda>cname. bind (dict_getitem maps cname) (\<lambda>m. csv_cell L ref_date (m (index ref))))
               (tl city_names)) (\<lambda>cells.
         Inr ([label, ref_date] @ cells))))"

text \<open>
  \<open>generate_csv\<close> returns the rows handed to the CSV writer, the header first; the
  serialisation by the \<^verbatim>\<open>csv\<close> module and the progress messages are not modelled.
\<close>

definition generate_csv :: "libs \<Rightarrow> exn + string list list" where
  "generate_csv L =
     bind (all_city_events L) (\<lambda>city_events.
     bind (dict_getitem city_events MASTER_CITY) (\<lambda>ref_events.
       let maps = map (\<lambda>(name, events). (name, index_map events)) city_events;
           city_names = map fst CITIES;
           header = [''Moon Phase'', MASTER_CITY @ '' Date''] @ tl city_names
       in bind (mapM (csv_row L maps city_names) ref_events) (\<lambda>rows. Inr (header # rows))))"

section \<open>year_moon_days.py\<close>

text \<open>
  The script repeats \<^verbatim>\<open>CITIES\<close>, \<^verbatim>\<open>julian_day\<close>, \<^verbatim>\<open>tithi_at_jd\<close> and \<^verbatim>\<open>local_sunrise\<close> of
  \<^verbatim>\<open>generator.py\<close> (up to the names of local variables); they are shared here.
\<close>

definition YEAR :: int where
  "YEAR = 2026"

definition YEAR_START :: int where
  \<comment> \<open>\<^verbatim>\<open>dt.date(YEAR, 1, 1)\<close>\<close>
  "YEAR_START = 739617"

definition YEAR_END :: int where
  \<comment> \<open>\<^verbatim>\<open>dt.date(YEAR, 12, 31)\<close>\<close>
  "YEAR_END = 739981"

definition is_moon_day :: "libs \<Rightarrow> int \<Rightarrow> city \<Rightarrow> exn + bool" where
  "is_moon_day L d c =
     bind (local_sunrise L d c) (\<lambda>sr.
     bind (astimezone L sr pytz_UTC) (\<lambda>utc.
     bind (julian_day L utc) (\<lambda>jd.
     bind (tithi_at_jd L jd) (\<lambda>t.
       Inr (t \<in> {AMAVASYA, PURNIMA})))))"

function collect_moon_days :: "libs \<Rightarrow> city \<Rightarrow> int \<Rightarrow> int set \<Rightarrow> exn + int set" where
  "collect_moon_days L c d results =
     (if d \<le> YEAR_END
      then (case is_moon_day L d c of
              Inl e \<Rightarrow> Inl e
            | Inr b \<Rightarrow> collect_moon_days L c (d + 1) (if b then insert d results else results))
      else Inr results)"
  by pat_completeness auto
termination
  by (relation "measure (\<lambda>(L, c, d, results). nat (YEAR_END + 1 - d))") auto

definition moon_days_for_city :: "libs \<Rightarrow> city \<Rightarrow> exn + int list" where
  "moon_days_for_city L c =
     bind (collect_moon_days L c YEAR_START {}) (\<lambda>results. Inr (sorted_list_of_set results))"

definition isoformat :: "libs \<Rightarrow> int \<Rightarrow> string" where
  \<comment> \<open>\<^verbatim>\<open>date.isoformat()\<close>\<close>
  "isoformat L d =
     (case date_ymd L d of (y, m, dd) \<Rightarrow> fmt_0d 4 y @ ''-'' @ fmt_0d 2 m @ ''-'' @ fmt_0d 2 dd)"

text \<open>The loop \<^verbatim>\<open>for delta in (0, -1, 1, -2, 2)\<close> with its \<^verbatim>\<open>break\<close>.\<close>

fun find_nearby :: "int \<Rightarrow> int set \<Rightarrow> int list \<Rightarrow> int option" where
  "find_nearby d days [] = None"
| "find_nearby d days (delta # deltas) =
     (let candidate = d + delta
      in if candidate \<in> days then Some candidate else find_nearby d days deltas)"

definition year_cell :: "libs \<Rightarrow> int \<Rightarrow> int set \<Rightarrow> string" where
  "year_cell L d days =
     (case find_nearby d days [0, -1, 1, -2, 2] of
        None \<Rightarrow> ''NaN''
      | Some found \<Rightarrow> if found = d then '''' else isoformat L found)"

definition year_generate_csv :: "libs \<Rightarrow> exn + string list list" where
  "year_generate_csv L =
     bind (dict_getitem CITIES ''Mysuru'') (\<lambda>master.
     bind (moon_days_for_city L master) (\<lambda>master_days.
     bind (mapM (\<lambda>(name, c). bind (moon_days_for_city L c) (\<lambda>days. Inr (name, set days)))
             (filter (\<lambda>(name, c). name \<noteq> ''Mysuru'') CITIES)) (\<lambda>city_days.
       let headers = [''Mysuru''] @ filter (\<lambda>name. name \<noteq> ''Mysuru'') (map fst CITIES) in
       bind (mapM (\<lambda>d.
               bind (mapM (\<lambda>cname. bind (dict_getitem city_days cname) (\<lambda>days. Inr (year_cell L d days)))
                       (tl headers)) (\<lambda>cells.
                 Inr ([isoformat L d] @ cells)))
             master_days) (\<lambda>rows.
         Inr (headers # rows)))))"

section \<open>Notions of the specification\<close>

text \<open>
  The tithi at the local sunrise of a date: the sunrise, taken back to UTC, as a Julian
  day, then the tithi at that instant.  \<open>detect_event\<close> and \<open>is_moon_day\<close> compute it
  inline.
\<close>

definition tithi_at_sunrise :: "libs \<Rightarrow> int \<Rightarrow> city \<Rightarrow> exn + int" where
  "tithi_at_sunrise L d c =
     bind (local_sunrise L d c) (\<lambda>sr.
     bind (astimezone L sr pytz_UTC) (\<lambda>utc.
     bind (julian_day L utc) (\<lambda>jd. tithi_at_jd L jd)))"

text \<open>
  A tithi value \<open>t\<close> is skipped between the sunrise tithis \<open>t0\<close> and \<open>t1\<close> when, counting
  forward around the cycle of 30, it comes strictly after \<open>t0\<close> and strictly before \<open>t1\<close>.
\<close>

definition skipped_over :: "int \<Rightarrow> int \<Rightarrow> int \<Rightarrow> bool" where
  "skipped_over t0 t1 t \<longleftrightarrow> 0 < (t - t0) mod 30 \<and> (t - t0) mod 30 < (t1 - t0) mod 30"

text \<open>The list \<^verbatim>\<open>skipped\<close> that \<open>detect_event\<close> builds from the two sunrise tithis.\<close>

definition skipped_tithis :: "int \<Rightarrow> int \<Rightarrow> int list" where
  "skipped_tithis t0 t1 = map (\<lambda>i. (t0 + i - 1) mod 30 + 1) [1..(t1 - t0) mod 30 - 1]"

text \<open>The rule of the specification for one day, from the two sunrise tithis.\<close>

definition event_rule :: "int \<Rightarrow> int \<Rightarrow> int option" where
  "event_rule t0 t1 =
     (if t0 = 15 then Some KIND_PURNIMA
      else if t0 = 30 then Some KIND_AMAVASYA
      else if 1 < (t1 - t0) mod 30 \<and> skipped_over t0 t1 15 then Some KIND_KSHAYA_PURNIMA
      else if 1 < (t1 - t0) mod 30 \<and> skipped_over t0 t1 30 then Some KIND_KSHAYA_AMAVASYA
      else None)"

text \<open>
  The invariant of the loop of \<^verbatim>\<open>generate_moon_days\<close> when it is about to examine the
  date \<open>d\<close>.
\<close>

definition scan_inv :: "int \<Rightarrow> moon_event list \<times> int option \<Rightarrow> bool" where
  "scan_inv d st \<longleftrightarrow>
     (case st of (events, last_date) \<Rightarrow>
        START_DATE \<le> d \<and>
        map index events = map int [0..<length events] \<and>
        sorted_wrt (\<lambda>a b. date a + 2 \<le> date b) events \<and>
        (\<forall>e\<in>set events. START_DATE \<le> date e \<and> date e < d \<and>
           kind e \<in> {KIND_PURNIMA, KIND_AMAVASYA, KIND_KSHAYA_PURNIMA, KIND_KSHAYA_AMAVASYA}) \<and>
        (case last_date of
           None \<Rightarrow> events = []
         | Some l \<Rightarrow> l < d \<and> (\<forall>e\<in>set events. date e \<le> l)))"

text \<open>The local midnight of a date in the time zone of a city, converted to UTC.\<close>

definition local_midnight_utc :: "libs \<Rightarrow> int \<Rightarrow> city \<Rightarrow> exn + datetime" where
  "local_midnight_utc L d c =
     bind (pytz_timezone L (tz c)) (\<lambda>zone.
     bind (dt_datetime L (fst (date_ymd L d)) (fst (snd (date_ymd L d))) (snd (snd (date_ymd L d)))
             0 0 0 None) (\<lambda>midnight.
     bind (tz_localize L zone midnight) (\<lambda>local. astimezone L local pytz_UTC)))"

text \<open>
  Truncation, in the words of the specification: \<open>n\<close> is the whole part of \<open>x\<close> when it is
  no larger than \<open>x\<close> in magnitude and less than one away from it.
\<close>

definition truncated_to :: "real \<Rightarrow> int \<Rightarrow> bool" where
  "truncated_to x n \<longleftrightarrow> \<bar>of_int n\<bar> \<le> \<bar>x\<bar> \<and> \<bar>x - of_int n\<bar> < 1"

text \<open>The exception \<open>e\<close> is raised by some call into the libraries.\<close>

definition raised_by :: "libs \<Rightarrow> exn \<Rightarrow> bool" where
  "raised_by L e \<longleftrightarrow>
     (\<exists>n. pytz_timezone L n = Inl e) \<or>
     (\<exists>z x. tz_localize L z x = Inl e) \<or>
     (\<exists>x z. astimezone L x z = Inl e) \<or>
     (\<exists>y m d hh mm ss z. dt_datetime L y m d hh mm ss z = Inl e) \<or>
     (\<exists>y m d h. swe_julday L y m d h = Inl e) \<or>
     (\<exists>jd b. swe_calc_ut L jd b = Inl e) \<or>
     (\<exists>jd b f g p t. swe_rise_trans L jd b f g p t = Inl e) \<or>
     (\<exists>jd f. swe_revjul L jd f = Inl e)"

text \<open>A date is a moon day of the one-year table: the tithi at its local sunrise is 15 or 30.\<close>

definition moon_day_at :: "libs \<Rightarrow> city \<Rightarrow> int \<Rightarrow> bool" where
  "moon_day_at L c d \<longleftrightarrow> tithi_at_sunrise L d c = Inr 15 \<or> tithi_at_sunrise L d c = Inr 30"

text \<open>The cities of \<open>CITIES\<close> after the master city, in their order.\<close>

definition other_cities :: "(string \<times> city) list" where
  "other_cities =
    [(''Moscow'', \<lparr>lat = 55.7558, lon = 37.6173, tz = ''Europe/Moscow''\<rparr>),
     (''Saint-Petersburg'', \<lparr>lat = 59.9343, lon = 30.3351, tz = ''Europe/Moscow''\<rparr>),
     (''Yekaterinburg'', \<lparr>lat = 56.8389, lon = 60.6057, tz = ''Asia/Yekaterinburg''\<rparr>),
     (''Krasnaya Polyana'', \<lparr>lat = 43.6828, lon = 40.2596, tz = ''Europe/Moscow''\<rparr>),
     (''Novosibirsk'', \<lparr>lat = 55.0084, lon = 82.9357, tz = ''Asia/Novosibirsk''\<rparr>),
     (''Minsk'', \<lparr>lat = 53.9006, lon = 27.5590, tz = ''Europe/Minsk''\<rparr>),
     (''Kyiv'', \<lparr>lat = 50.4501, lon = 30.5234, tz = ''Europe/Kyiv''\<rparr>),
     (''Astana'', \<lparr>lat = 51.1694, lon = 71.4491, tz = ''Asia/Almaty''\<rparr>),
     (''Almaty'', \<lparr>lat = 43.2389, lon = 76.8897, tz = ''Asia/Almaty''\<rparr>)]"

text \<open>The libraries never raise for the time zone of a city.\<close>

definition libs_succeed :: "libs \<Rightarrow> city \<Rightarrow> bool" where
  "libs_succeed L c \<longleftrightarrow>
     (\<exists>z. pytz_timezone L (tz c) = Inr z) \<and>
     (\<forall>z x. \<exists>r. tz_localize L z x = Inr r) \<and>
     (\<forall>x z. \<exists>r. astimezone L x z = Inr r) \<and>
     (\<forall>y m d hh mm ss z. \<exists>r. dt_datetime L y m d hh mm ss z = Inr r) \<and>
     (\<forall>y m d h. \<exists>r. swe_julday L y m d h = Inr r) \<and>
     (\<forall>jd b. \<exists>r. swe_calc_ut L jd b = Inr r) \<and>
     (\<forall>jd b f g p t. \<exists>r. swe_rise_trans L jd b f g p t = Inr r) \<and>
     (\<forall>jd f. \<exists>r. swe_revjul L jd f = Inr r)"

section \<open>A concrete instance of the libraries\<close>

text \<open>
  The theorems below hold for every behaviour of the libraries.  To run the scripts on
  concrete dates, \<open>demo_libs\<close> instantiates the record: the proleptic Gregorian calendar
  of \<^verbatim>\<open>datetime\<close>, fixed UTC offsets for the time zones, the Julian day number of a UTC
  date and time, a sunrise six hours after the start of the search, a sun fixed at
  longitude 0 and a moon whose longitude \<open>moon\<close> is a parameter.  The solver raises at the
  Julian days selected by \<open>no_rise\<close>.
\<close>

definition greg_is_leap :: "int \<Rightarrow> bool" where
  "greg_is_leap y \<longleftrightarrow> y mod 4 = 0 \<and> (y mod 100 \<noteq> 0 \<or> y mod 400 = 0)"

definition greg_days_before_year :: "int \<Rightarrow> int" where
  "greg_days_before_year y = (y - 1) * 365 + (y - 1) div 4 - (y - 1) div 100 + (y - 1) div 400"

definition greg_days_in_month :: "int \<Rightarrow> int \<Rightarrow> int" where
  "greg_days_in_month y m =
     (if m = 2 \<and> greg_is_leap y then 29
      else [0, 31, 28, 31, 30, 31, 30, 31, 31, 30, 31, 30, 31] ! nat m)"

definition greg_days_before_month :: "int \<Rightarrow> int \<Rightarrow> int" where
  "greg_days_before_month y m =
     [0, 0, 31, 59, 90, 120, 151, 181, 212, 243, 273, 304, 334] ! nat m
       + (if 2 < m \<and> greg_is_leap y then 1 else 0)"

definition greg_ymd2ord :: "int \<Rightarrow> int \<Rightarrow> int \<Rightarrow> int" where
  "greg_ymd2ord y m d = greg_days_before_year y + greg_days_before_month y m + d"

definition greg_ord2ymd :: "int \<Rightarrow> int \<times> int \<times> int" where
  "greg_ord2ymd n0 =
     (let n = n0 - 1;
          n400 = n div 146097; n = n mod 146097;
          n100 = n div 36524; n = n mod 36524;
          n4 = n div 1461; n = n mod 1461;
          n1 = n div 365; n = n mod 365;
          y = n400 * 400 + 1 + n100 * 100 + n4 * 4 + n1
      in if n1 = 4 \<or> n100 = 4 then (y - 1, 12, 31)
         else
           let leapyear = (n1 = 3 \<and> (n4 \<noteq> 24 \<or> n100 = 3));
               m = (n + 50) div 32;
               preceding = greg_days_before_month 1 m + (if 2 < m \<and> leapyear then 1 else 0)
           in if preceding > n
              then (y, m - 1,
                    n - (preceding - (greg_days_in_month 1 (m - 1)
                                        + (if m - 1 = 2 \<and> leapyear then 1 else 0))) + 1)
              else (y, m, n - preceding + 1))"

definition exact_rnd :: "real \<Rightarrow> real" where
  \<comment> \<open>arithmetic without rounding error\<close>
  "exact_rnd x = x"

definition demo_utcoffset :: "tzinfo option \<Rightarrow> int" where
  \<comment> \<open>seconds east of UTC\<close>
  "demo_utcoffset z =
     (case z of
        None \<Rightarrow> 0
      | Some (Tz name) \<Rightarrow>
          (case map_of [(''UTC'', 0), (''Asia/Kolkata'', 19800), (''Europe/Moscow'', 10800),
                        (''Asia/Yekaterinburg'', 18000), (''Asia/Novosibirsk'', 25200),
                        (''Europe/Minsk'', 10800), (''Europe/Kyiv'', 7200),
                        (''Asia/Almaty'', 18000)] name of
             None \<Rightarrow> 0 | Some s \<Rightarrow> s))"

definition demo_seconds :: "datetime \<Rightarrow> int" where
  "demo_seconds x =
     greg_ymd2ord (year x) (month x) (day x) * 86400 + hour x * 3600 + minute x * 60 + second x"

definition demo_of_seconds :: "int \<Rightarrow> tzinfo option \<Rightarrow> datetime" where
  "demo_of_seconds s z =
     (let r = greg_ord2ymd (s div 86400) in
        \<lparr>year = fst r, month = fst (snd r), day = snd (snd r), hour = (s mod 86400) div 3600,
         minute = (s mod 3600) div 60, second = s mod 60, tzinfo = z\<rparr>)"

definition demo_timezone :: "string \<Rightarrow> exn + tzinfo" where
  "demo_timezone name = Inr (Tz name)"

definition demo_localize :: "tzinfo \<Rightarrow> datetime \<Rightarrow> exn + datetime" where
  "demo_localize z x = Inr (x\<lparr>tzinfo := Some z\<rparr>)"

definition demo_astimezone :: "datetime \<Rightarrow> tzinfo \<Rightarrow> exn + datetime" where
  "demo_astimezone x z =
     Inr (demo_of_seconds
            (demo_seconds x - demo_utcoffset (tzinfo x) + demo_utcoffset (Some z)) (Some z))"

definition demo_datetime ::
    "int \<Rightarrow> int \<Rightarrow> int \<Rightarrow> int \<Rightarrow> int \<Rightarrow> int \<Rightarrow> tzinfo option \<Rightarrow> exn + datetime" where
  "demo_datetime y m d hh mm ss z =
     Inr \<lparr>year = y, month = m, day = d, hour = hh, minute = mm, second = ss, tzinfo = z\<rparr>"

definition demo_julday :: "int \<Rightarrow> int \<Rightarrow> int \<Rightarrow> real \<Rightarrow> exn + real" where
  "demo_julday y m d h = Inr (of_int (greg_ymd2ord y m d) + 1721424.5 + h / 24)"

definition demo_calc_ut :: "(real \<Rightarrow> real) \<Rightarrow> real \<Rightarrow> planet \<Rightarrow> exn + real" where
  "demo_calc_ut moon jd body = Inr (case body of SUN \<Rightarrow> 0 | MOON \<Rightarrow> moon jd)"

definition demo_rise_trans ::
    "(real \<Rightarrow> bool) \<Rightarrow> real \<Rightarrow> planet \<Rightarrow> rsmi \<Rightarrow> real \<times> real \<times> real \<Rightarrow> real \<Rightarrow> real \<Rightarrow> exn + real" where
  "demo_rise_trans no_rise jd body flag geopos atpress attemp =
     (if no_rise jd then Inl (SweError ''rise_trans'') else Inr (jd + 1 / 4))"

definition demo_revjul :: "real \<Rightarrow> calflag \<Rightarrow> exn + int \<times> int \<times> int \<times> real" where
  "demo_revjul jd cal =
     (let r = greg_ord2ymd \<lfloor>jd - 1721424.5\<rfloor> in
        Inr (fst r, fst (snd r), snd (snd r), (jd - 1721424.5 - of_int \<lfloor>jd - 1721424.5\<rfloor>) * 24))"

definition demo_libs :: "(real \<Rightarrow> real) \<Rightarrow> (real \<Rightarrow> bool) \<Rightarrow> libs" where
  "demo_libs moon no_rise =
     \<lparr>pytz_timezone = demo_timezone,
      tz_localize = demo_localize,
      astimezone = demo_astimezone,
      dt_datetime = demo_datetime,
      date_ymd = greg_ord2ymd,
      swe_julday = demo_julday,
      swe_calc_ut = demo_calc_ut moon,
      swe_rise_trans = demo_rise_trans no_rise,
      swe_revjul = demo_revjul,
      rnd = exact_rnd\<rparr>"

definition mysuru :: city where
  "mysuru = \<lparr>lat = 12.2958, lon = 76.6394, tz = ''Asia/Kolkata''\<rparr>"

definition moscow :: city where
  "moscow = \<lparr>lat = 55.7558, lon = 37.6173, tz = ''Europe/Moscow''\<rparr>"

text \<open>A moon that stands at longitude \<open>a\<close> before the Julian day \<open>jd0\<close> and at \<open>b\<close> from then on.\<close>

definition moon_jump :: "real \<Rightarrow> real \<Rightarrow> real \<Rightarrow> real \<Rightarrow> real" where
  "moon_jump jd0 a b jd = (if jd < jd0 then a else b)"

text \<open>
  A moon that steps through a table: its longitude is the value of the first entry
  whose Julian day bounds the instant from above, and \<open>dflt\<close> after the last entry.
\<close>

fun moon_steps :: "(real \<times> real) list \<Rightarrow> real \<Rightarrow> real \<Rightarrow> real" where
  "moon_steps [] dflt jd = dflt"
| "moon_steps ((b, v) # tbl) dflt jd = (if jd < b then v else moon_steps tbl dflt jd)"

text \<open>
  A moon for a run of the scan over Mysuru: the sunrise tithis of the first five dates of
  the range are 15, 15, 29, 30 and 1, and 1 from then on.
\<close>

definition demo_moon :: "real \<Rightarrow> real" where
  "demo_moon = moon_steps [(2461043, 170), (2461044, 340), (2461045, 354)] 6"

text \<open>Datetimes and library instances for runs in which a library call raises.\<close>

definition um_0101 :: datetime where
  "um_0101 = \<lparr>year = 2025, month = 12, day = 31, hour = 18, minute = 30, second = 0,
     tzinfo = Some (Tz ''UTC'')\<rparr>"

definition um_0103 :: datetime where
  "um_0103 = \<lparr>year = 2026, month = 1, day = 2, hour = 18, minute = 30, second = 0,
     tzinfo = Some (Tz ''UTC'')\<rparr>"

definition libs_no_zone :: libs where
  "libs_no_zone = (demo_libs demo_moon (\<lambda>jd. False))\<lparr>pytz_timezone := (\<lambda>n. Inl (UnknownTimeZoneError n))\<rparr>"

definition libs_no_julday :: libs where
  "libs_no_julday = (demo_libs demo_moon (\<lambda>jd. False))\<lparr>swe_julday := (\<lambda>y m d h. Inl (SweError ''julday''))\<rparr>"

definition libs_no_revjul :: libs where
  "libs_no_revjul = (demo_libs demo_moon (\<lambda>jd. False))\<lparr>swe_revjul := (\<lambda>jd f. Inl (SweError ''revjul''))\<rparr>"

definition libs_no_sun :: libs where
  "libs_no_sun = (demo_libs demo_moon (\<lambda>jd. False))\<lparr>swe_calc_ut := (\<lambda>jd b. Inl (SweError ''calc_ut''))\<rparr>"

definition libs_no_moon :: libs where
  "libs_no_moon = (demo_libs demo_moon (\<lambda>jd. False))\<lparr>swe_calc_ut :=
     (\<lambda>jd b. case b of SUN \<Rightarrow> Inr 0 | MOON \<Rightarrow> Inl (SweError ''calc_ut''))\<rparr>"

definition libs_no_rise :: libs where
  "libs_no_rise = demo_libs demo_moon (\<lambda>jd. 2461043 < jd)"

text \<open>
  A moon for a run of the one-year table over Mysuru: the sunrise tithis of the first
  four dates of the year are 14, 16, 30 and 1, and 1 from then on.
\<close>

definition demo_moon_kshaya :: "real \<Rightarrow> real" where
  "demo_moon_kshaya = moon_steps [(2461042, 160), (2461043, 190), (2461044, 354)] 6"

text \<open>
  A moon for a run of the one-year table over Mysuru and Moscow: the tithi changes
  between the sunrise of Mysuru and the later sunrise of Moscow, so that the sunrise tithi
  is 30 on 3 January 2026 in Moscow and on 4 January 2026 in Mysuru.
\<close>

definition demo_moon_shift :: "real \<Rightarrow> real" where
  "demo_moon_shift = moon_steps [(2461043.55, 340), (2461044.55, 354)] 6"

definition libs_no_julday_dawn :: libs where
  "libs_no_julday_dawn = (demo_libs demo_moon (\<lambda>jd. False))\<lparr>swe_julday :=
     (\<lambda>y m d h. if h = 1 / 2 then Inl (SweError ''julday'') else demo_julday y m d h)\<rparr>"

definition sr_0101 :: datetime where
  "sr_0101 = \<lparr>year = 2026, month = 1, day = 1, hour = 6, minute = 0, second = 0,
     tzinfo = Some (Tz ''Asia/Kolkata'')\<rparr>"

definition sr_0102 :: datetime where
  "sr_0102 = \<lparr>year = 2026, month = 1, day = 2, hour = 6, minute = 0, second = 0,
     tzinfo = Some (Tz ''Asia/Kolkata'')\<rparr>"

definition us_0101 :: datetime where
  "us_0101 = \<lparr>year = 2026, month = 1, day = 1, hour = 0, minute = 30, second = 0,
     tzinfo = Some (Tz ''UTC'')\<rparr>"

definition us_0102 :: datetime where
  "us_0102 = \<lparr>year = 2026, month = 1, day = 2, hour = 0, minute = 30, second = 0,
     tzinfo = Some (Tz ''UTC'')\<rparr>"

text \<open>
  An instance with the rounding of doubles in which the sun stands at longitude
  \<open>2 powr -46\<close> and the moon at longitude \<open>0\<close>.
\<close>

definition libs_new_moon :: libs where
  "libs_new_moon = (demo_libs demo_moon (\<lambda>jd. False))\<lparr>swe_calc_ut :=
     (\<lambda>jd b. Inr (case b of SUN \<Rightarrow> 1 / 2 ^ 46 | MOON \<Rightarrow> 0)), rnd := round_double\<rparr>"

text \<open>
  An instance in which the sun rises \<open>6.9153\<close> hours after the start of the search, and
  one with the rounding of doubles in which the solver's Julian day is converted back to
  1 January 2026 and the hour \<open>4561145622609119 / 2 ^ 52\<close>, the double written
  \<^verbatim>\<open>1.0127777777777778\<close>.
\<close>

definition libs_late_rise :: libs where
  "libs_late_rise = (demo_libs demo_moon (\<lambda>jd. False))\<lparr>swe_rise_trans :=
     (\<lambda>jd b f g p t. Inr (jd + 69153 / 240000))\<rparr>"

definition libs_double_rise :: libs where
  "libs_double_rise = (demo_libs demo_moon (\<lambda>jd. False))\<lparr>swe_revjul :=
     (\<lambda>jd f. Inr (2026, 1, 1, 4561145622609119 / 4503599627370496)), rnd := round_double\<rparr>"

definition midnight_0101 :: datetime where
  "midnight_0101 = \<lparr>year = 2026, month = 1, day = 1, hour = 0, minute = 0, second = 0,
     tzinfo = None\<rparr>"

section \<open>Evaluation\<close>

declare scan_days.simps [simp del]
declare collect_moon_days.simps [simp del]
declare digits_of.simps [simp del]

lemma bind_Inl: "bind (Inl e) f = Inl e"
  by (simp add: bind_def)

lemma bind_Inr: "bind (Inr x) f = f x"
  by (simp add: bind_def)

lemma bind_weak_cong: "m = m' \<Longrightarrow> bind m f = bind m' f"
  by simp

lemma bind_eq_Inr_iff: "bind m f = Inr y \<longleftrightarrow> (\<exists>x. m = Inr x \<and> f x = Inr y)"
  by (cases m) (simp_all add: bind_def)

lemma bind_eq_Inl_iff: "bind m f = Inl e \<longleftrightarrow> m = Inl e \<or> (\<exists>x. m = Inr x \<and> f x = Inl e)"
  by (cases m) (simp_all add: bind_def)

lemma demo_libs_sel:
  "pytz_timezone (demo_libs moon no_rise) = demo_timezone"
  "tz_localize (demo_libs moon no_rise) = demo_localize"
  "astimezone (demo_libs moon no_rise) = demo_astimezone"
  "dt_datetime (demo_libs moon no_rise) = demo_datetime"
  "date_ymd (demo_libs moon no_rise) = greg_ord2ymd"
  "swe_julday (demo_libs moon no_rise) = demo_julday"
  "swe_calc_ut (demo_libs moon no_rise) = demo_calc_ut moon"
  "swe_rise_trans (demo_libs moon no_rise) = demo_rise_trans no_rise"
  "swe_revjul (demo_libs moon no_rise) = demo_revjul"
  "rnd (demo_libs moon no_rise) = exact_rnd"
  by (simp_all add: demo_libs_def)

text \<open>
  \<open>local_sunrise\<close> with the tuples taken apart by projections: the form in which the
  simplifier evaluates it on concrete dates.
\<close>

lemma local_sunrise_unfold:
  "local_sunrise L d c =
     bind (pytz_timezone L (tz c)) (\<lambda>tzi.
     bind (dt_datetime L (fst (date_ymd L d)) (fst (snd (date_ymd L d))) (snd (snd (date_ymd L d)))
             0 0 0 None) (\<lambda>naive.
     bind (tz_localize L tzi naive) (\<lambda>local_midnight.
     bind (astimezone L local_midnight pytz_UTC) (\<lambda>utc_midnight.
     bind (julian_day L utc_midnight) (\<lambda>jd0.
     bind (swe_rise_trans L jd0 SUN CALC_RISE (lon c, lat c, 0) 0 0) (\<lambda>jd_rise.
     bind (swe_revjul L jd_rise GREG_CAL) (\<lambda>r.
       let h = snd (snd (snd r));
           hh = py_int h;
           mm = py_int (float_mul L (float_sub L h (of_int hh)) 60);
           ss = py_int (float_mul L
                  (float_sub L (float_mul L (float_sub L h (of_int hh)) 60) (of_int mm)) 60)
       in bind (dt_datetime L (fst r) (fst (snd r)) (fst (snd (snd r))) hh mm ss (Some pytz_UTC))
            (\<lambda>sunrise_utc. astimezone L sunrise_utc tzi))))))))"
  by (simp add: local_sunrise_def case_prod_unfold Let_def)

lemmas eval_congs =
  bind_weak_cong let_weak_cong prod.case_cong_weak sum.case_cong_weak option.case_cong_weak
  planet.case_cong_weak tzinfo.case_cong_weak

lemmas greg_defs =
  greg_ord2ymd_def greg_ymd2ord_def greg_days_before_year_def greg_days_before_month_def
  greg_days_in_month_def greg_is_leap_def

lemmas demo_defs =
  demo_libs_sel demo_timezone_def demo_localize_def demo_astimezone_def demo_datetime_def
  demo_julday_def demo_calc_ut_def demo_rise_trans_def demo_revjul_def demo_of_seconds_def
  demo_seconds_def demo_utcoffset_def greg_defs mysuru_def moscow_def

lemmas const_defs =
  pytz_UTC_def TITHI_DEG_def PURNIMA_def AMAVASYA_def KIND_PURNIMA_def KIND_AMAVASYA_def
  KIND_KSHAYA_PURNIMA_def KIND_KSHAYA_AMAVASYA_def

lemmas eval_simps =
  bind_Inl bind_Inr Let_def local_sunrise_unfold detect_event_def julian_day_def tithi_at_jd_def
  tithi_at_sunrise_def py_int_def float_add_def float_sub_def float_mul_def float_truediv_def
  c_fmod_def float_mod_def float_floordiv_def exact_rnd_def const_defs demo_defs

section \<open>The event detector\<close>


lemma step_back: "((t0 + i - 1) mod 30 + 1 - t0) mod 30 = i mod (30::int)"
proof -
  have "((t0 + i - 1) mod 30 + 1 - t0) mod 30 = ((t0 + i - 1) mod 30 + (1 - t0)) mod 30"
    by (simp add: algebra_simps)
  also have "\<dots> = ((t0 + i - 1) + (1 - t0)) mod 30"
    by (rule mod_add_left_eq)
  also have "\<dots> = i mod 30" by simp
  finally show ?thesis .
qed

lemma step_forth:
  assumes "1 \<le> t" "t \<le> (30::int)"
  shows "(t0 + (t - t0) mod 30 - 1) mod 30 + 1 = t"
proof -
  have "(t0 + (t - t0) mod 30 - 1) mod 30 = ((t - t0) mod 30 + (t0 - 1)) mod 30"
    by (simp add: algebra_simps)
  also have "\<dots> = ((t - t0) + (t0 - 1)) mod 30"
    by (rule mod_add_left_eq)
  also have "\<dots> = (t - 1) mod 30" by simp
  also have "\<dots> = t - 1" using assms by simp
  finally show ?thesis by simp
qed

lemma skipped_list_iff:
  assumes "1 \<le> t" "t \<le> 30"
  shows "t \<in> set (map (\<lambda>i. (t0 + i - 1) mod 30 + 1) [1..(t1 - t0) mod 30 - 1]) \<longleftrightarrow> skipped_over t0 t1 t"
proof
  assume "t \<in> set (map (\<lambda>i. (t0 + i - 1) mod 30 + 1) [1..(t1 - t0) mod 30 - 1])"
  then obtain i where i: "1 \<le> i" "i \<le> (t1 - t0) mod 30 - 1" and t: "t = (t0 + i - 1) mod 30 + 1"
    by auto
  have "(t1 - t0) mod 30 < 30" by simp
  with i have i30: "i < 30" by linarith
  have "(t - t0) mod 30 = i mod 30" unfolding t by (rule step_back)
  with i i30 show "skipped_over t0 t1 t" by (simp add: skipped_over_def)
next
  assume s: "skipped_over t0 t1 t"
  define i where "i = (t - t0) mod 30"
  from s have i: "1 \<le> i" "i \<le> (t1 - t0) mod 30 - 1" by (auto simp: skipped_over_def i_def)
  have "(t0 + i - 1) mod 30 + 1 = t" using assms unfolding i_def by (rule step_forth)
  with i show "t \<in> set (map (\<lambda>i. (t0 + i - 1) mod 30 + 1) [1..(t1 - t0) mod 30 - 1])"
    by force
qed

text \<open>The decision of \<open>detect_event\<close> once both tithis are known.\<close>

lemma detect_decision:
  "(if t0 = PURNIMA then Inr (Some KIND_PURNIMA)
    else if t0 = AMAVASYA then Inr (Some KIND_AMAVASYA)
    else
      let diff = (t1 - t0) mod 30 in
      if diff > 1 then
        let skipped = map (\<lambda>i. (t0 + i - 1) mod 30 + 1) [1..diff - 1] in
        if PURNIMA \<in> set skipped then Inr (Some KIND_KSHAYA_PURNIMA)
        else if AMAVASYA \<in> set skipped then Inr (Some KIND_KSHAYA_AMAVASYA)
        else Inr None
      else Inr None) = (Inr (event_rule t0 t1) :: exn + int option)"
proof -
  have p: "15 \<in> set (map (\<lambda>i. (t0 + i - 1) mod 30 + 1) [1..(t1 - t0) mod 30 - 1]) \<longleftrightarrow> skipped_over t0 t1 15"
    by (rule skipped_list_iff) simp_all
  have a: "30 \<in> set (map (\<lambda>i. (t0 + i - 1) mod 30 + 1) [1..(t1 - t0) mod 30 - 1]) \<longleftrightarrow> skipped_over t0 t1 30"
    by (rule skipped_list_iff) simp_all
  show ?thesis
    unfolding Let_def PURNIMA_def AMAVASYA_def p a event_rule_def by simp
qed

lemma detect_event_Inr_iff:
  "detect_event L d c = Inr r \<longleftrightarrow>
     (\<exists>t0 t1. tithi_at_sunrise L d c = Inr t0 \<and> tithi_at_sunrise L (d + 1) c = Inr t1
        \<and> r = event_rule t0 t1)"
  unfolding detect_event_def tithi_at_sunrise_def detect_decision
  by (auto simp: bind_eq_Inr_iff)


lemma event_rule_kinds:
  "event_rule t0 t1 \<in> {None, Some KIND_PURNIMA, Some KIND_AMAVASYA,
      Some KIND_KSHAYA_PURNIMA, Some KIND_KSHAYA_AMAVASYA}"
  by (simp add: event_rule_def)

text \<open>
  Claim C1.  Whenever the tithi at the local sunrise of a date and of the next date can be
  computed, the detector returns: Purnima if today's tithi is 15; Amavasya if it is 30;
  otherwise, if the tithi advanced by more than one step (modulo 30), Kshaya-Purnima when 15
  is among the skipped values, and Kshaya-Amavasya when 30 is (and 15 is not); otherwise no
  event.  Whatever the libraries, the date and the city, a returned kind is one of the four
  kinds.
\<close>

theorem detect_event_follows_rule:
  assumes "tithi_at_sunrise L d c = Inr t0"
    and "tithi_at_sunrise L (d + 1) c = Inr t1"
  shows "detect_event L d c =
           Inr (if t0 = 15 then Some KIND_PURNIMA
                else if t0 = 30 then Some KIND_AMAVASYA
                else if 1 < (t1 - t0) mod 30 \<and> skipped_over t0 t1 15 then Some KIND_KSHAYA_PURNIMA
                else if 1 < (t1 - t0) mod 30 \<and> skipped_over t0 t1 30 then Some KIND_KSHAYA_AMAVASYA
                else None)
         \<and> (\<forall>L' d' c' k. detect_event L' d' c' = Inr (Some k) \<longrightarrow>
               k \<in> {KIND_PURNIMA, KIND_AMAVASYA, KIND_KSHAYA_PURNIMA, KIND_KSHAYA_AMAVASYA})"
proof
  from assms have "detect_event L d c = Inr (event_rule t0 t1)"
    by (auto simp: detect_event_Inr_iff)
  then show "detect_event L d c =
           Inr (if t0 = 15 then Some KIND_PURNIMA
                else if t0 = 30 then Some KIND_AMAVASYA
                else if 1 < (t1 - t0) mod 30 \<and> skipped_over t0 t1 15 then Some KIND_KSHAYA_PURNIMA
                else if 1 < (t1 - t0) mod 30 \<and> skipped_over t0 t1 30 then Some KIND_KSHAYA_AMAVASYA
                else None)"
    by (simp add: event_rule_def)
next
  show "\<forall>L' d' c' k. detect_event L' d' c' = Inr (Some k) \<longrightarrow>
               k \<in> {KIND_PURNIMA, KIND_AMAVASYA, KIND_KSHAYA_PURNIMA, KIND_KSHAYA_AMAVASYA}"
  proof (intro allI impI)
    fix L' d' c' k
    assume "detect_event L' d' c' = Inr (Some k)"
    then obtain a b where "Some k = event_rule a b"
      by (auto simp: detect_event_Inr_iff)
    with event_rule_kinds [of a b] show "k \<in> {KIND_PURNIMA, KIND_AMAVASYA, KIND_KSHAYA_PURNIMA, KIND_KSHAYA_AMAVASYA}"
      by auto
  qed
qed

lemma tithi_demo_1:
  "tithi_at_sunrise (demo_libs (moon_jump 2461042 160 190) (\<lambda>jd. False)) 739617 mysuru = Inr 14"
  by (simp add: eval_simps moon_jump_def cong: eval_congs)

lemma tithi_demo_2:
  "tithi_at_sunrise (demo_libs (moon_jump 2461042 160 190) (\<lambda>jd. False)) 739618 mysuru = Inr 16"
  by (simp add: eval_simps moon_jump_def cong: eval_congs)

theorem detect_event_follows_rule_witness:
  "tithi_at_sunrise (demo_libs (moon_jump 2461042 160 190) (\<lambda>jd. False)) START_DATE mysuru = Inr 14
   \<and> tithi_at_sunrise (demo_libs (moon_jump 2461042 160 190) (\<lambda>jd. False)) (START_DATE + 1) mysuru = Inr 16
   \<and> detect_event (demo_libs (moon_jump 2461042 160 190) (\<lambda>jd. False)) START_DATE mysuru
       = Inr (Some KIND_KSHAYA_PURNIMA)"
proof -
  have h0: "tithi_at_sunrise (demo_libs (moon_jump 2461042 160 190) (\<lambda>jd. False)) START_DATE mysuru = Inr 14"
    using tithi_demo_1 by (simp add: START_DATE_def)
  have h1: "tithi_at_sunrise (demo_libs (moon_jump 2461042 160 190) (\<lambda>jd. False)) (START_DATE + 1) mysuru = Inr 16"
    using tithi_demo_2 by (simp add: START_DATE_def)
  from detect_event_follows_rule [OF h0 h1]
  have "detect_event (demo_libs (moon_jump 2461042 160 190) (\<lambda>jd. False)) START_DATE mysuru
       = Inr (Some KIND_KSHAYA_PURNIMA)"
    by (simp add: skipped_over_def)
  with h0 h1 show ?thesis by simp
qed

lemma skipped_tithis_iff:
  "1 \<le> t \<Longrightarrow> t \<le> 30 \<Longrightarrow> t \<in> set (skipped_tithis t0 t1) \<longleftrightarrow> skipped_over t0 t1 t"
  unfolding skipped_tithis_def by (rule skipped_list_iff)

lemma skipped_over_diff: "skipped_over t0 t1 t \<Longrightarrow> 1 < (t1 - t0) mod 30"
  by (auto simp: skipped_over_def)

text \<open>
  Claim C8.  A sunrise tithi of 15 gives Purnima whatever the tithi of the next sunrise
  is, so the skipped interval plays no part; and when the sunrise tithi is neither 15 nor
  30 and both 15 and 30 are in the list of skipped tithis, the detector returns
  Kshaya-Purnima, not Kshaya-Amavasya.
\<close>

theorem purnima_takes_priority:
  "(tithi_at_sunrise L d c = Inr 15 \<longrightarrow> tithi_at_sunrise L (d + 1) c = Inr t1 \<longrightarrow>
      detect_event L d c = Inr (Some KIND_PURNIMA))
   \<and> (tithi_at_sunrise L d c = Inr t0 \<longrightarrow> tithi_at_sunrise L (d + 1) c = Inr t1' \<longrightarrow>
      t0 \<noteq> 15 \<longrightarrow> t0 \<noteq> 30 \<longrightarrow>
      15 \<in> set (skipped_tithis t0 t1') \<longrightarrow> 30 \<in> set (skipped_tithis t0 t1') \<longrightarrow>
      detect_event L d c = Inr (Some KIND_KSHAYA_PURNIMA)
      \<and> detect_event L d c \<noteq> Inr (Some KIND_KSHAYA_AMAVASYA))"
proof (intro conjI impI)
  assume "tithi_at_sunrise L d c = Inr 15" "tithi_at_sunrise L (d + 1) c = Inr t1"
  then have "detect_event L d c = Inr (event_rule 15 t1)"
    by (auto simp: detect_event_Inr_iff)
  then show "detect_event L d c = Inr (Some KIND_PURNIMA)"
    by (simp add: event_rule_def)
next
  assume t: "tithi_at_sunrise L d c = Inr t0" "tithi_at_sunrise L (d + 1) c = Inr t1'"
    and n: "t0 \<noteq> 15" "t0 \<noteq> 30"
    and p: "15 \<in> set (skipped_tithis t0 t1')"
  from p have s: "skipped_over t0 t1' 15" by (simp add: skipped_tithis_iff)
  from t have "detect_event L d c = Inr (event_rule t0 t1')"
    by (auto simp: detect_event_Inr_iff)
  with n s skipped_over_diff [OF s] show k: "detect_event L d c = Inr (Some KIND_KSHAYA_PURNIMA)"
    by (simp add: event_rule_def)
  show "detect_event L d c \<noteq> Inr (Some KIND_KSHAYA_AMAVASYA)"
    unfolding k by (simp add: KIND_KSHAYA_PURNIMA_def KIND_KSHAYA_AMAVASYA_def)
qed

lemma tithi_demo_3:
  "tithi_at_sunrise (demo_libs (\<lambda>jd. 170) (\<lambda>jd. False)) 739617 mysuru = Inr 15"
  by (simp add: eval_simps cong: eval_congs)

lemma tithi_demo_4:
  "tithi_at_sunrise (demo_libs (\<lambda>jd. 170) (\<lambda>jd. False)) 739618 mysuru = Inr 15"
  by (simp add: eval_simps cong: eval_congs)

lemma tithi_demo_5:
  "tithi_at_sunrise (demo_libs (moon_jump 2461042 160 6) (\<lambda>jd. False)) 739617 mysuru = Inr 14"
  by (simp add: eval_simps moon_jump_def cong: eval_congs)

lemma tithi_demo_6:
  "tithi_at_sunrise (demo_libs (moon_jump 2461042 160 6) (\<lambda>jd. False)) 739618 mysuru = Inr 1"
  by (simp add: eval_simps moon_jump_def cong: eval_congs)

lemma skipped_14_1: "skipped_tithis 14 1 = [15, 16, 17, 18, 19, 20, 21, 22, 23, 24, 25, 26, 27, 28, 29, 30]"
  by (simp add: skipped_tithis_def upto.simps)

theorem purnima_takes_priority_witness:
  "tithi_at_sunrise (demo_libs (\<lambda>jd. 170) (\<lambda>jd. False)) 739617 mysuru = Inr 15
   \<and> tithi_at_sunrise (demo_libs (\<lambda>jd. 170) (\<lambda>jd. False)) (739617 + 1) mysuru = Inr 15
   \<and> detect_event (demo_libs (\<lambda>jd. 170) (\<lambda>jd. False)) 739617 mysuru = Inr (Some KIND_PURNIMA)
   \<and> tithi_at_sunrise (demo_libs (moon_jump 2461042 160 6) (\<lambda>jd. False)) 739617 mysuru = Inr 14
   \<and> tithi_at_sunrise (demo_libs (moon_jump 2461042 160 6) (\<lambda>jd. False)) (739617 + 1) mysuru = Inr 1
   \<and> (14::int) \<noteq> 15 \<and> (14::int) \<noteq> 30
   \<and> 15 \<in> set (skipped_tithis 14 1) \<and> 30 \<in> set (skipped_tithis 14 1)
   \<and> detect_event (demo_libs (moon_jump 2461042 160 6) (\<lambda>jd. False)) 739617 mysuru
        = Inr (Some KIND_KSHAYA_PURNIMA)
   \<and> detect_event (demo_libs (moon_jump 2461042 160 6) (\<lambda>jd. False)) 739617 mysuru
        \<noteq> Inr (Some KIND_KSHAYA_AMAVASYA)"
proof -
  have a: "tithi_at_sunrise (demo_libs (\<lambda>jd. 170) (\<lambda>jd. False)) (739617 + 1) mysuru = Inr 15"
    using tithi_demo_4 by simp
  have b: "tithi_at_sunrise (demo_libs (moon_jump 2461042 160 6) (\<lambda>jd. False)) (739617 + 1) mysuru = Inr 1"
    using tithi_demo_6 by simp
  have s: "15 \<in> set (skipped_tithis 14 1)" "30 \<in> set (skipped_tithis 14 1)"
    by (simp_all add: skipped_14_1)
  have n: "(14::int) \<noteq> 15" "(14::int) \<noteq> 30"
    by simp_all
  from purnima_takes_priority [of "demo_libs (\<lambda>jd. 170) (\<lambda>jd. False)" 739617 mysuru 15 14 1]
    tithi_demo_3 a
  have p: "detect_event (demo_libs (\<lambda>jd. 170) (\<lambda>jd. False)) 739617 mysuru = Inr (Some KIND_PURNIMA)"
    by blast
  from purnima_takes_priority [of "demo_libs (moon_jump 2461042 160 6) (\<lambda>jd. False)" 739617 mysuru 15 14 1]
    tithi_demo_5 b s n
  have k: "detect_event (demo_libs (moon_jump 2461042 160 6) (\<lambda>jd. False)) 739617 mysuru
             = Inr (Some KIND_KSHAYA_PURNIMA)
           \<and> detect_event (demo_libs (moon_jump 2461042 160 6) (\<lambda>jd. False)) 739617 mysuru
             \<noteq> Inr (Some KIND_KSHAYA_AMAVASYA)"
    by blast
  from tithi_demo_3 a p tithi_demo_5 b s k show ?thesis
    by (simp add: KIND_KSHAYA_PURNIMA_def KIND_KSHAYA_AMAVASYA_def)
qed

section \<open>The full-range scan\<close>

subsection \<open>The loop invariant\<close>

lemma detect_event_kind:
  "detect_event L d c = Inr (Some k) \<Longrightarrow>
     k \<in> {KIND_PURNIMA, KIND_AMAVASYA, KIND_KSHAYA_PURNIMA, KIND_KSHAYA_AMAVASYA}"
proof -
  assume "detect_event L d c = Inr (Some k)"
  then obtain a b where "Some k = event_rule a b"
    by (auto simp: detect_event_Inr_iff)
  with event_rule_kinds [of a b] show ?thesis by auto
qed

lemma scan_inv_init: "scan_inv START_DATE ([], None)"
  by (simp add: scan_inv_def)

lemma scan_step_inv:
  assumes inv: "scan_inv d st" and le: "d \<le> END_DATE" and step: "scan_step L c d st = Inr st'"
  shows "scan_inv (d + 1) st'"
proof -
  obtain events last_date where st: "st = (events, last_date)" by (cases st)
  from step obtain k where k: "detect_event L d c = Inr k"
    and st': "st' = (case k of None \<Rightarrow> (events, last_date)
       | Some kd \<Rightarrow> if (case last_date of None \<Rightarrow> True | Some l \<Rightarrow> d - l \<ge> 2)
           then (events @ [\<lparr>index = int (length events), date = d, kind = kd\<rparr>], Some d)
           else (events, last_date))"
    by (auto simp: scan_step_def st bind_eq_Inr_iff split: option.splits if_splits)
  from inv have old: "scan_inv (d + 1) (events, last_date)"
    by (fastforce simp: scan_inv_def st split: option.splits)
  show ?thesis
  proof (cases k)
    case None
    with st' old show ?thesis by simp
  next
    case (Some kd)
    show ?thesis
    proof (cases "case last_date of None \<Rightarrow> True | Some l \<Rightarrow> d - l \<ge> 2")
      case False
      with st' Some old show ?thesis by simp
    next
      case True
      with st' Some have st'': "st' = (events @ [\<lparr>index = int (length events), date = d, kind = kd\<rparr>], Some d)"
        by simp
      from k Some have kd: "kd \<in> {KIND_PURNIMA, KIND_AMAVASYA, KIND_KSHAYA_PURNIMA, KIND_KSHAYA_AMAVASYA}"
        by (auto dest: detect_event_kind)
      from inv have i1: "START_DATE \<le> d"
        and i2: "map index events = map int [0..<length events]"
        and i3: "sorted_wrt (\<lambda>a b. date a + 2 \<le> date b) events"
        and i4: "\<forall>e\<in>set events. START_DATE \<le> date e \<and> date e < d \<and>
           kind e \<in> {KIND_PURNIMA, KIND_AMAVASYA, KIND_KSHAYA_PURNIMA, KIND_KSHAYA_AMAVASYA}"
        and i5: "case last_date of None \<Rightarrow> events = [] | Some l \<Rightarrow> l < d \<and> (\<forall>e\<in>set events. date e \<le> l)"
        by (simp_all add: scan_inv_def st)
      from i5 True have gap: "\<forall>e\<in>set events. date e + 2 \<le> d"
        by (cases last_date) auto
      have s: "sorted_wrt (\<lambda>a b. date a + 2 \<le> date b) (events @ [\<lparr>index = int (length events), date = d, kind = kd\<rparr>])"
        using i3 gap by (simp add: sorted_wrt_append)
      show ?thesis
        unfolding st'' scan_inv_def using i1 i2 i4 gap kd s by auto
    qed
  qed
qed

lemma scan_days_inv:
  "scan_inv d st \<Longrightarrow> scan_days L c d st = Inr evs \<Longrightarrow> \<exists>last d'. scan_inv d' (evs, last) \<and> d' \<le> max d (END_DATE + 1)"
proof (induction L c d st rule: scan_days.induct)
  case (1 L c d st)
  show ?case
  proof (cases "d \<le> END_DATE")
    case True
    with "1.prems"(2) obtain st' where s: "scan_step L c d st = Inr st'"
      and r: "scan_days L c (d + 1) st' = Inr evs"
      by (subst (asm) scan_days.simps) (auto split: sum.splits)
    from scan_step_inv [OF "1.prems"(1) True s] have "scan_inv (d + 1) st'" .
    from "1.IH" [OF True s this r] True show ?thesis by auto
  next
    case False
    with "1.prems"(2) have "evs = fst st"
      by (subst (asm) scan_days.simps) simp
    with "1.prems"(1) have "scan_inv d (evs, snd st)" by simp
    then show ?thesis by (intro exI [of _ "snd st"] exI [of _ d]) simp
  qed
qed


lemma generate_moon_days_inv:
  assumes "generate_moon_days L c = Inr evs"
  shows "\<exists>last d'. scan_inv d' (evs, last) \<and> d' \<le> END_DATE + 1"
proof -
  from scan_days_inv [OF scan_inv_init] assms
  obtain last d' where "scan_inv d' (evs, last)" "d' \<le> max START_DATE (END_DATE + 1)"
    unfolding generate_moon_days_def by blast
  then show ?thesis by (auto simp: START_DATE_def END_DATE_def)
qed

lemma sorted_wrt_pair:
  "sorted_wrt R xs \<Longrightarrow> x \<in> set xs \<Longrightarrow> y \<in> set xs \<Longrightarrow> x = y \<or> R x y \<or> R y x"
  by (induction xs) auto

text \<open>
  Claim C3.  In the list returned by the full-range scan, consecutive events lie at least
  two days apart (so no event is dated the day after another one), the indices are
  0, 1, 2, ... in list order, and the dates increase strictly; all dates lie in the scanned
  range.
\<close>

theorem generate_moon_days_events:
  assumes "generate_moon_days L c = Inr evs"
  shows "(\<forall>i. Suc i < length evs \<longrightarrow> 2 \<le> date (evs ! Suc i) - date (evs ! i))
       \<and> (\<forall>e\<in>set evs. \<forall>e'\<in>set evs. date e' \<noteq> date e + 1)
       \<and> map index evs = map int [0..<length evs]
       \<and> sorted_wrt (<) (map date evs)
       \<and> (\<forall>e\<in>set evs. START_DATE \<le> date e \<and> date e \<le> END_DATE)"
proof -
  from generate_moon_days_inv [OF assms] obtain last d' where
    inv: "scan_inv d' (evs, last)" and d': "d' \<le> END_DATE + 1" by blast
  from inv have idx: "map index evs = map int [0..<length evs]"
    and srt: "sorted_wrt (\<lambda>a b. date a + 2 \<le> date b) evs"
    and rng: "\<forall>e\<in>set evs. START_DATE \<le> date e \<and> date e < d'"
    by (simp_all add: scan_inv_def)
  have gap: "\<forall>i. Suc i < length evs \<longrightarrow> 2 \<le> date (evs ! Suc i) - date (evs ! i)"
  proof (intro allI impI)
    fix i assume "Suc i < length evs"
    with srt have "date (evs ! i) + 2 \<le> date (evs ! Suc i)"
      by (simp add: sorted_wrt_iff_nth_less)
    then show "2 \<le> date (evs ! Suc i) - date (evs ! i)" by simp
  qed
  have next_day: "\<forall>e\<in>set evs. \<forall>e'\<in>set evs. date e' \<noteq> date e + 1"
  proof (intro ballI)
    fix e e' assume "e \<in> set evs" "e' \<in> set evs"
    from sorted_wrt_pair [OF srt this]
    show "date e' \<noteq> date e + 1" by auto
  qed
  have inc: "sorted_wrt (<) (map date evs)"
    unfolding sorted_wrt_map by (rule sorted_wrt_mono_rel [OF _ srt]) simp
  from rng d' have "\<forall>e\<in>set evs. START_DATE \<le> date e \<and> date e \<le> END_DATE"
    by auto
  with gap next_day idx inc show ?thesis by blast
qed

subsection \<open>The scan returns when the libraries do\<close>

lemma libs_succeedD:
  assumes "libs_succeed L c"
  shows "\<exists>z. pytz_timezone L (tz c) = Inr z"
    and "\<exists>r. tz_localize L z x = Inr r"
    and "\<exists>r. astimezone L x z = Inr r"
    and "\<exists>r. dt_datetime L y m d hh mm ss zo = Inr r"
    and "\<exists>r. swe_julday L y m d h = Inr r"
    and "\<exists>r. swe_calc_ut L jd b = Inr r"
    and "\<exists>r. swe_rise_trans L jd b f g p t = Inr r"
    and "\<exists>r. swe_revjul L jd cf = Inr r"
proof -
  note a = assms [unfolded libs_succeed_def]
  from a show "\<exists>z. pytz_timezone L (tz c) = Inr z" by (elim conjE)
  from a have "\<forall>z x. \<exists>r. tz_localize L z x = Inr r" by (elim conjE)
  then show "\<exists>r. tz_localize L z x = Inr r" by (elim allE)
  from a have "\<forall>x z. \<exists>r. astimezone L x z = Inr r" by (elim conjE)
  then show "\<exists>r. astimezone L x z = Inr r" by (elim allE)
  from a have "\<forall>y m d hh mm ss z. \<exists>r. dt_datetime L y m d hh mm ss z = Inr r" by (elim conjE)
  then show "\<exists>r. dt_datetime L y m d hh mm ss zo = Inr r" by (elim allE)
  from a have "\<forall>y m d h. \<exists>r. swe_julday L y m d h = Inr r" by (elim conjE)
  then show "\<exists>r. swe_julday L y m d h = Inr r" by (elim allE)
  from a have "\<forall>jd b. \<exists>r. swe_calc_ut L jd b = Inr r" by (elim conjE)
  then show "\<exists>r. swe_calc_ut L jd b = Inr r" by (elim allE)
  from a have "\<forall>jd b f g p t. \<exists>r. swe_rise_trans L jd b f g p t = Inr r" by (elim conjE)
  then show "\<exists>r. swe_rise_trans L jd b f g p t = Inr r" by (elim allE)
  from a have "\<forall>jd f. \<exists>r. swe_revjul L jd f = Inr r" by (elim conjE)
  then show "\<exists>r. swe_revjul L jd cf = Inr r" by (elim allE)
qed

lemma tithi_at_jd_total:
  assumes "libs_succeed L c"
  shows "\<exists>t. tithi_at_jd L jd = Inr t"
proof -
  from libs_succeedD(6) [OF assms] obtain s where 1: "swe_calc_ut L jd SUN = Inr s" by blast
  from libs_succeedD(6) [OF assms] obtain m where 2: "swe_calc_ut L jd MOON = Inr m" by blast
  show ?thesis by (simp add: tithi_at_jd_def 1 2 bind_Inr Let_def)
qed

lemma local_sunrise_total:
  assumes "libs_succeed L c"
  shows "\<exists>sr. local_sunrise L d c = Inr sr"
proof -
  note D = libs_succeedD [OF assms]
  from D(1) obtain tzi where 1: "pytz_timezone L (tz c) = Inr tzi" by blast
  from D(4) obtain naive where 2: "dt_datetime L (fst (date_ymd L d)) (fst (snd (date_ymd L d))) (snd (snd (date_ymd L d))) 0 0 0 None = Inr naive"
    by blast
  from D(2) obtain lm where 3: "tz_localize L tzi naive = Inr lm" by blast
  from D(3) obtain um where 4: "astimezone L lm pytz_UTC = Inr um" by blast
  from D(5) obtain jd0 where 5: "julian_day L um = Inr jd0" unfolding julian_day_def by blast
  from D(7) obtain jr where 6: "swe_rise_trans L jd0 SUN CALC_RISE (lon c, lat c, 0) 0 0 = Inr jr" by blast
  from D(8) obtain r where 7: "swe_revjul L jr GREG_CAL = Inr r" by blast
  define h where "h = snd (snd (snd r))"
  define mm where "mm = py_int (float_mul L (float_sub L h (of_int (py_int h))) 60)"
  define ss where "ss = py_int (float_mul L
      (float_sub L (float_mul L (float_sub L h (of_int (py_int h))) 60) (of_int mm)) 60)"
  from D(4) obtain su where 8: "dt_datetime L (fst r) (fst (snd r)) (fst (snd (snd r))) (py_int h)
      mm ss (Some pytz_UTC) = Inr su"
    by blast
  from D(3) obtain sr where 9: "astimezone L su tzi = Inr sr" by blast
  have "local_sunrise L d c = Inr sr"
    unfolding local_sunrise_unfold using 1 2 3 4 5 6 7 8 9
    by (simp add: bind_Inr Let_def h_def mm_def ss_def)
  then show ?thesis ..
qed

lemma tithi_at_sunrise_total:
  assumes "libs_succeed L c"
  shows "\<exists>t. tithi_at_sunrise L d c = Inr t"
proof -
  note D = libs_succeedD [OF assms]
  from local_sunrise_total [OF assms] obtain sr where 1: "local_sunrise L d c = Inr sr" ..
  from D(3) obtain u where 2: "astimezone L sr pytz_UTC = Inr u" by blast
  from D(5) obtain jd where 3: "julian_day L u = Inr jd"
    unfolding julian_day_def by blast
  from tithi_at_jd_total [OF assms] obtain t where 4: "tithi_at_jd L jd = Inr t" ..
  from 1 2 3 4 have "tithi_at_sunrise L d c = Inr t"
    by (simp add: tithi_at_sunrise_def bind_Inr)
  then show ?thesis ..
qed

lemma detect_event_total:
  assumes "libs_succeed L c"
  shows "\<exists>k. detect_event L d c = Inr k"
  using tithi_at_sunrise_total [OF assms, of d] tithi_at_sunrise_total [OF assms, of "d + 1"]
  by (auto simp: detect_event_Inr_iff)

lemma scan_step_total:
  assumes "libs_succeed L c"
  shows "\<exists>st'. scan_step L c d st = Inr st'"
proof -
  from detect_event_total [OF assms] obtain k where "detect_event L d c = Inr k" ..
  then show ?thesis
    by (cases st) (simp add: scan_step_def bind_Inr split: option.splits)
qed

lemma scan_days_total:
  "libs_succeed L c \<Longrightarrow> \<exists>evs. scan_days L c d st = Inr evs"
proof (induction L c d st rule: scan_days.induct)
  case (1 L c d st)
  show ?case
  proof (cases "d \<le> END_DATE")
    case True
    from scan_step_total [OF "1.prems"] obtain st' where s: "scan_step L c d st = Inr st'" ..
    from "1.IH" [OF True s "1.prems"] obtain evs where "scan_days L c (d + 1) st' = Inr evs" ..
    with True s have "scan_days L c d st = Inr evs"
      by (subst scan_days.simps) simp
    then show ?thesis ..
  next
    case False
    then have "scan_days L c d st = Inr (fst st)"
      by (subst scan_days.simps) simp
    then show ?thesis ..
  qed
qed

lemma generate_moon_days_total:
  "libs_succeed L c \<Longrightarrow> \<exists>evs. generate_moon_days L c = Inr evs"
  unfolding generate_moon_days_def by (rule scan_days_total)

lemma scan_step_prefix:
  "scan_step L c d (events, last_date) = Inr (events', last_date') \<Longrightarrow> \<exists>r. events' = events @ r"
  by (auto simp: scan_step_def bind_eq_Inr_iff split: option.splits if_splits)

lemma scan_days_prefix:
  "scan_days L c d st = Inr evs \<Longrightarrow> \<exists>r. evs = fst st @ r"
proof (induction L c d st rule: scan_days.induct)
  case (1 L c d st)
  show ?case
  proof (cases "d \<le> END_DATE")
    case True
    with "1.prems" obtain st' where s: "scan_step L c d st = Inr st'"
      and r: "scan_days L c (d + 1) st' = Inr evs"
      by (subst (asm) scan_days.simps) (auto split: sum.splits)
    from "1.IH" [OF True s r] obtain r1 where r1: "evs = fst st' @ r1" ..
    from scan_step_prefix [of L c d "fst st" "snd st" "fst st'" "snd st'"] s
    obtain r0 where "fst st' = fst st @ r0" by auto
    with r1 show ?thesis by simp
  next
    case False
    with "1.prems" show ?thesis
      by (subst (asm) scan_days.simps) simp
  qed
qed

lemma demo_libs_succeed: "libs_succeed (demo_libs moon (\<lambda>jd. False)) c"
  by (simp add: libs_succeed_def demo_libs_sel demo_timezone_def demo_localize_def
      demo_astimezone_def demo_datetime_def demo_julday_def demo_calc_ut_def demo_rise_trans_def
      demo_revjul_def Let_def)

subsection \<open>A run of the scan\<close>

lemma demo_tithi_0: "tithi_at_sunrise (demo_libs demo_moon (\<lambda>jd. False)) 739617 mysuru = Inr 15"
  by (simp add: eval_simps demo_moon_def cong: eval_congs)

lemma demo_tithi_1: "tithi_at_sunrise (demo_libs demo_moon (\<lambda>jd. False)) 739618 mysuru = Inr 15"
  by (simp add: eval_simps demo_moon_def cong: eval_congs)

lemma demo_tithi_2: "tithi_at_sunrise (demo_libs demo_moon (\<lambda>jd. False)) 739619 mysuru = Inr 29"
  by (simp add: eval_simps demo_moon_def cong: eval_congs)

lemma demo_tithi_3: "tithi_at_sunrise (demo_libs demo_moon (\<lambda>jd. False)) 739620 mysuru = Inr 30"
  by (simp add: eval_simps demo_moon_def cong: eval_congs)

lemma demo_tithi_4: "tithi_at_sunrise (demo_libs demo_moon (\<lambda>jd. False)) 739621 mysuru = Inr 1"
  by (simp add: eval_simps demo_moon_def cong: eval_congs)

lemma detect_event_eq:
  "tithi_at_sunrise L d c = Inr t0 \<Longrightarrow> tithi_at_sunrise L (d + 1) c = Inr t1 \<Longrightarrow>
     detect_event L d c = Inr (event_rule t0 t1)"
  by (auto simp: detect_event_Inr_iff)

lemma demo_detect_0: "detect_event (demo_libs demo_moon (\<lambda>jd. False)) 739617 mysuru = Inr (Some KIND_PURNIMA)"
  using detect_event_eq [OF demo_tithi_0] demo_tithi_1 by (simp add: event_rule_def)

lemma demo_detect_1: "detect_event (demo_libs demo_moon (\<lambda>jd. False)) 739618 mysuru = Inr (Some KIND_PURNIMA)"
  using detect_event_eq [OF demo_tithi_1] demo_tithi_2 by (simp add: event_rule_def)

lemma demo_detect_2: "detect_event (demo_libs demo_moon (\<lambda>jd. False)) 739619 mysuru = Inr None"
  using detect_event_eq [OF demo_tithi_2] demo_tithi_3 by (simp add: event_rule_def)

lemma demo_detect_3: "detect_event (demo_libs demo_moon (\<lambda>jd. False)) 739620 mysuru = Inr (Some KIND_AMAVASYA)"
  using detect_event_eq [OF demo_tithi_3] demo_tithi_4 by (simp add: event_rule_def)

lemma scan_days_step:
  "d \<le> END_DATE \<Longrightarrow> scan_step L c d st = Inr st' \<Longrightarrow> d' = d + 1 \<Longrightarrow>
     scan_days L c d st = scan_days L c d' st'"
  by (subst scan_days.simps) simp

lemma demo_scan_4:
  "scan_days (demo_libs demo_moon (\<lambda>jd. False)) mysuru 739617 ([], None) =
   scan_days (demo_libs demo_moon (\<lambda>jd. False)) mysuru 739621
     ([\<lparr>index = 0, date = 739617, kind = KIND_PURNIMA\<rparr>,
       \<lparr>index = 1, date = 739620, kind = KIND_AMAVASYA\<rparr>], Some 739620)"
proof -
  let ?L = "demo_libs demo_moon (\<lambda>jd. False)"
  let ?e0 = "\<lparr>index = 0, date = 739617, kind = KIND_PURNIMA\<rparr>"
  have "scan_days ?L mysuru 739617 ([], None) = scan_days ?L mysuru 739618 ([?e0], Some 739617)"
    by (rule scan_days_step) (simp_all add: END_DATE_def scan_step_def demo_detect_0 bind_Inr)
  also have "\<dots> = scan_days ?L mysuru 739619 ([?e0], Some 739617)"
    by (rule scan_days_step) (simp_all add: END_DATE_def scan_step_def demo_detect_1 bind_Inr)
  also have "\<dots> = scan_days ?L mysuru 739620 ([?e0], Some 739617)"
    by (rule scan_days_step) (simp_all add: END_DATE_def scan_step_def demo_detect_2 bind_Inr)
  also have "\<dots> = scan_days ?L mysuru 739621
      ([?e0, \<lparr>index = 1, date = 739620, kind = KIND_AMAVASYA\<rparr>], Some 739620)"
    by (rule scan_days_step) (simp_all add: END_DATE_def scan_step_def demo_detect_3 bind_Inr)
  finally show ?thesis .
qed

theorem generate_moon_days_events_witness:
  "\<exists>evs. generate_moon_days (demo_libs demo_moon (\<lambda>jd. False)) mysuru = Inr evs
     \<and> take 2 evs = [\<lparr>index = 0, date = 739617, kind = KIND_PURNIMA\<rparr>,
                      \<lparr>index = 1, date = 739620, kind = KIND_AMAVASYA\<rparr>]
     \<and> (\<forall>i. Suc i < length evs \<longrightarrow> 2 \<le> date (evs ! Suc i) - date (evs ! i))
     \<and> (\<forall>e\<in>set evs. \<forall>e'\<in>set evs. date e' \<noteq> date e + 1)
     \<and> map index evs = map int [0..<length evs]
     \<and> sorted_wrt (<) (map date evs)
     \<and> (\<forall>e\<in>set evs. START_DATE \<le> date e \<and> date e \<le> END_DATE)"
proof -
  let ?L = "demo_libs demo_moon (\<lambda>jd. False)"
  from generate_moon_days_total [OF demo_libs_succeed]
  obtain evs where g: "generate_moon_days ?L mysuru = Inr evs" by blast
  then have "scan_days ?L mysuru 739621
     ([\<lparr>index = 0, date = 739617, kind = KIND_PURNIMA\<rparr>,
       \<lparr>index = 1, date = 739620, kind = KIND_AMAVASYA\<rparr>], Some 739620) = Inr evs"
    by (simp add: generate_moon_days_def START_DATE_def demo_scan_4)
  from scan_days_prefix [OF this]
  have t: "take 2 evs = [\<lparr>index = 0, date = 739617, kind = KIND_PURNIMA\<rparr>,
                      \<lparr>index = 1, date = 739620, kind = KIND_AMAVASYA\<rparr>]"
    by auto
  from generate_moon_days_events [OF g] g t show ?thesis by blast
qed

section \<open>Double arithmetic\<close>

text \<open>
  \<open>round_double\<close> on a number whose magnitude lies between two consecutive powers of
  two: the quotient by the spacing of the doubles there is rounded to an integer.
\<close>

lemma round_double_ge1:
  fixes k :: nat
  assumes "2 ^ k \<le> \<bar>x\<bar>" "\<bar>x\<bar> < 2 ^ (k + 1)" "k \<le> 52"
  shows "round_double x = of_int (round_half_even (x * 2 ^ (52 - k))) / 2 ^ (52 - k)"
proof -
  have pos: "0 < \<bar>x\<bar>"
  proof -
    have "(0::real) < 2 ^ k" by simp
    with assms(1) show ?thesis by linarith
  qed
  then have nz: "x \<noteq> 0" by simp
  have p1: "(2::real) powr real_of_int (int k) = 2 ^ k"
    by (simp add: powr_realpow)
  have p2: "(2::real) powr real_of_int (int k + 1) = 2 ^ (k + 1)"
  proof -
    have "(2::real) powr real (k + 1) = 2 ^ (k + 1)" by (rule powr_realpow) simp
    moreover have "real_of_int (int k + 1) = real (k + 1)" by simp
    ultimately show ?thesis by (simp only:)
  qed
  have fl: "\<lfloor>log 2 \<bar>x\<bar>\<rfloor> = int k"
    using assms(1,2) floor_log_eq_powr_iff [of "\<bar>x\<bar>" 2 "int k"] pos
    by (simp only: p1 p2)
  have e: "max \<lfloor>log 2 \<bar>x\<bar>\<rfloor> (- 1022) = int k" unfolding fl by simp
  have u: "(2::real) powr real_of_int (int k - 52) = 1 / 2 ^ (52 - k)"
  proof -
    have "real_of_int (int k - 52) = - real (52 - k)" using assms(3) by simp
    then have "(2::real) powr real_of_int (int k - 52) = 2 powr (- real (52 - k))"
      by (simp only:)
    also have "\<dots> = 1 / 2 powr real (52 - k)" by (rule powr_minus_divide)
    also have "\<dots> = 1 / 2 ^ (52 - k)" by (simp add: powr_realpow)
    finally show ?thesis .
  qed
  show ?thesis
    unfolding round_double_def Let_def e u using nz by simp
qed

lemma round_double_lt1:
  fixes k :: nat
  assumes "1 \<le> \<bar>x\<bar> * 2 ^ k" "\<bar>x\<bar> * 2 ^ k < 2" "k \<le> 1022"
  shows "round_double x = of_int (round_half_even (x * 2 ^ (52 + k))) / 2 ^ (52 + k)"
proof -
  have pos: "0 < \<bar>x\<bar>"
  proof (rule ccontr)
    assume "\<not> 0 < \<bar>x\<bar>"
    then have "\<bar>x\<bar> = 0" by simp
    with assms(1) show False by simp
  qed
  then have nz: "x \<noteq> 0" by simp
  have p1: "(2::real) powr real_of_int (- int k) = 1 / 2 ^ k"
  proof -
    have "(2::real) powr real_of_int (- int k) = 2 powr (- real k)" by simp
    also have "\<dots> = 1 / 2 powr real k" by (rule powr_minus_divide)
    also have "\<dots> = 1 / 2 ^ k" by (simp add: powr_realpow)
    finally show ?thesis .
  qed
  have p2: "(2::real) powr real_of_int (- int k + 1) = 2 / 2 ^ k"
  proof -
    have "real_of_int (- int k + 1) = 1 + (- real k)" by simp
    then have "(2::real) powr real_of_int (- int k + 1) = 2 powr (1 + (- real k))"
      by (simp only:)
    also have "\<dots> = 2 powr 1 * 2 powr (- real k)" by (rule powr_add)
    also have "\<dots> = 2 * (1 / 2 powr real k)" by (simp add: powr_minus_divide)
    also have "\<dots> = 2 / 2 ^ k" by (simp add: powr_realpow)
    finally show ?thesis .
  qed
  have a: "1 / 2 ^ k \<le> \<bar>x\<bar>" using assms(1) by (simp add: field_simps)
  have b: "\<bar>x\<bar> < 2 / 2 ^ k" using assms(2) by (simp add: field_simps)
  have fl: "\<lfloor>log 2 \<bar>x\<bar>\<rfloor> = - int k"
    using a b floor_log_eq_powr_iff [of "\<bar>x\<bar>" 2 "- int k"] pos
    by (simp only: p1 p2)
  have e: "max \<lfloor>log 2 \<bar>x\<bar>\<rfloor> (- 1022) = - int k" unfolding fl using assms(3) by simp
  have u: "(2::real) powr real_of_int (- int k - 52) = 1 / 2 ^ (52 + k)"
  proof -
    have "real_of_int (- int k - 52) = - real (52 + k)" by simp
    then have "(2::real) powr real_of_int (- int k - 52) = 2 powr (- real (52 + k))"
      by (simp only:)
    also have "\<dots> = 1 / 2 powr real (52 + k)" by (rule powr_minus_divide)
    also have "\<dots> = 1 / 2 ^ (52 + k)"
    proof -
      have "(2::real) powr real (52 + k) = 2 ^ (52 + k)" by (rule powr_realpow) simp
      then show ?thesis by (simp only:)
    qed
    finally show ?thesis .
  qed
  show ?thesis
    unfolding round_double_def Let_def e u using nz by simp
qed

lemma round_double_0: "round_double 0 = 0"
  by (simp add: round_double_def)

lemma rd_360: "round_double 360 = 360"
  using round_double_ge1 [of 8 360] by (simp add: round_half_even_def)

lemma rd_30: "round_double 30 = 30"
  using round_double_ge1 [of 4 30] by (simp add: round_half_even_def)

lemma rd_a: "round_double (- (1 / 2 ^ 46)) = - (1 / 2 ^ 46)"
proof -
  have "round_double (- (1 / 2 ^ 46)) =
      of_int (round_half_even (- (1 / 2 ^ 46) * 2 ^ (52 + 46))) / 2 ^ (52 + 46)"
    by (rule round_double_lt1) simp_all
  also have "(- (1 / 2 ^ 46) * 2 ^ (52 + 46) :: real) = - 4503599627370496" by simp
  also have "round_half_even (- 4503599627370496) = - 4503599627370496"
    by (simp add: round_half_even_def)
  finally show ?thesis by simp
qed

lemma rd_b: "round_double (360 - 1 / 2 ^ 46) = 360"
proof -
  have "round_double (360 - 1 / 2 ^ 46) =
      of_int (round_half_even ((360 - 1 / 2 ^ 46) * 2 ^ (52 - 8))) / 2 ^ (52 - 8)"
    by (rule round_double_ge1) simp_all
  also have "((360 - 1 / 2 ^ 46) * 2 ^ (52 - 8) :: real) = 6333186975989760 - 1 / 4" by simp
  also have "round_half_even (6333186975989760 - 1 / 4) = 6333186975989760"
  proof -
    have "\<lfloor>6333186975989760 - 1 / 4 :: real\<rfloor> = 6333186975989759" by linarith
    then show ?thesis by (simp add: round_half_even_def)
  qed
  finally show ?thesis by simp
qed

subsection \<open>The tithi just before the conjunction\<close>

lemma new_moon_sub: "float_sub libs_new_moon 0 (1 / 2 ^ 46) = - (1 / 2 ^ 46)"
  using rd_a by (simp add: float_sub_def libs_new_moon_def)

lemma new_moon_fmod: "c_fmod (- (1 / 2 ^ 46)) 360 = - (1 / 2 ^ 46)"
proof -
  have "\<lceil>- (1 / 2 ^ 46) / 360 :: real\<rceil> = 0" by (simp add: ceiling_eq_iff)
  then show ?thesis by (simp add: c_fmod_def)
qed

lemma new_moon_mod: "float_mod libs_new_moon (- (1 / 2 ^ 46)) 360 = 360"
proof -
  have "float_add libs_new_moon (- (1 / 2 ^ 46)) 360 = 360"
    using rd_b by (simp add: float_add_def libs_new_moon_def)
  then show ?thesis
    unfolding float_mod_def new_moon_fmod Let_def by simp
qed

lemma new_moon_floordiv: "float_floordiv libs_new_moon 360 12 = 30"
proof -
  have m: "c_fmod 360 12 = 0" by (simp add: c_fmod_def)
  have a: "float_sub libs_new_moon 360 0 = 360"
    using rd_360 by (simp add: float_sub_def libs_new_moon_def)
  have b: "float_truediv libs_new_moon 360 12 = 30"
    using rd_30 by (simp add: float_truediv_def libs_new_moon_def)
  have c: "float_sub libs_new_moon 30 30 = 0"
    using round_double_0 by (simp add: float_sub_def libs_new_moon_def)
  show ?thesis
    unfolding float_floordiv_def m Let_def by (simp add: a b c)
qed

text \<open>
  Claim C2.  The tithi is computed as \<^verbatim>\<open>int(((moon - sun) % 360.0) // 12.0) + 1\<close>, but in
  the arithmetic of doubles it does not always lie in the range from 1 to 30.  When the
  ephemeris gives the sun at longitude \<open>2 powr -46\<close> and the moon at longitude \<open>0\<close>, the
  difference is the double \<open>- (2 powr -46)\<close>; its remainder modulo \<open>360\<close> is the sum of
  that and \<open>360\<close>, which rounds to the double \<open>360\<close>; the floor quotient of \<open>360\<close> by \<open>12\<close>
  is \<open>30\<close>; and \<open>tithi_at_jd\<close> returns 31.
\<close>

theorem tithi_at_jd_31: "tithi_at_jd libs_new_moon 2461042 = Inr 31"
proof -
  have s: "swe_calc_ut libs_new_moon 2461042 SUN = Inr (1 / 2 ^ 46)"
    by (simp add: libs_new_moon_def)
  have m: "swe_calc_ut libs_new_moon 2461042 MOON = Inr 0"
    by (simp add: libs_new_moon_def)
  show ?thesis
    unfolding tithi_at_jd_def s m bind_Inr Let_def new_moon_sub new_moon_mod TITHI_DEG_def
      new_moon_floordiv
    by (simp add: py_int_def)
qed

section \<open>The local sunrise\<close>

lemma py_int_truncated: "truncated_to x n \<longleftrightarrow> n = py_int x"
proof (cases "0 \<le> x")
  case True
  have "truncated_to x n \<longleftrightarrow> n = \<lfloor>x\<rfloor>"
  proof
    assume t: "truncated_to x n"
    have "0 \<le> n"
    proof (rule ccontr)
      assume "\<not> 0 \<le> n"
      then have "n \<le> - 1" by simp
      then have "(of_int n :: real) \<le> - 1" by (metis of_int_le_iff of_int_minus of_int_1)
      with t True show False unfolding truncated_to_def by linarith
    qed
    then have "0 \<le> (of_int n :: real)" by simp
    with t True have "of_int n \<le> x" "x < of_int n + 1"
      unfolding truncated_to_def by linarith+
    then show "n = \<lfloor>x\<rfloor>" by linarith
  next
    assume n: "n = \<lfloor>x\<rfloor>"
    then have a: "of_int n \<le> x" "x < of_int n + 1" by linarith+
    from n True have "0 \<le> n" by simp
    then have "0 \<le> (of_int n :: real)" by simp
    with a True show "truncated_to x n"
      unfolding truncated_to_def by linarith
  qed
  with True show ?thesis by (simp add: py_int_def)
next
  case False
  have "truncated_to x n \<longleftrightarrow> n = \<lceil>x\<rceil>"
  proof
    assume t: "truncated_to x n"
    have "n \<le> 0"
    proof (rule ccontr)
      assume "\<not> n \<le> 0"
      then have "1 \<le> n" by simp
      then have "1 \<le> (of_int n :: real)" by (metis of_int_le_iff of_int_1)
      with t False show False unfolding truncated_to_def by linarith
    qed
    then have "(of_int n :: real) \<le> 0" by simp
    with t False have "x \<le> of_int n" "of_int n - 1 < x"
      unfolding truncated_to_def by linarith+
    then show "n = \<lceil>x\<rceil>" by linarith
  next
    assume n: "n = \<lceil>x\<rceil>"
    then have a: "x \<le> of_int n" "of_int n - 1 < x" by linarith+
    from n False have "n \<le> 0" by (simp add: ceiling_le_zero)
    then have "(of_int n :: real) \<le> 0" by simp
    with a False show "truncated_to x n"
      unfolding truncated_to_def by linarith
  qed
  with False show ?thesis by (simp add: py_int_def)
qed

text \<open>
  Claim C6.  The local-sunrise computation returns an instant exactly when every stage
  of the following pipeline returns, and then it is the result of the last stage: the
  time zone of the city is looked up; the midnight of the date is built from the year,
  month and day of the date and localized in that zone; this local midnight is converted
  to UTC; its Julian day (year, month, day and the hour of the day as a float) is handed
  to the rise/transit solver, asked for the next rise of the sun at the longitude and
  latitude of the city; the Julian day returned by the solver is converted back to a
  year, a month, a day and an hour of the day \<open>h\<close>; the UTC date and time is built from
  these with the whole part of \<open>h\<close> as the hours, the whole part of the rest in minutes as
  the minutes and the whole part of the rest of that in seconds as the seconds; and this
  instant is converted to the time zone of the city.
\<close>

theorem local_sunrise_pipeline:
  "local_sunrise L d c = Inr sr \<longleftrightarrow>
     (\<exists>zone y0 m0 d0 midnight local um jd0 jd_rise y m dd h hh mm ss su.
        pytz_timezone L (tz c) = Inr zone
      \<and> date_ymd L d = (y0, m0, d0)
      \<and> dt_datetime L y0 m0 d0 0 0 0 None = Inr midnight
      \<and> tz_localize L zone midnight = Inr local
      \<and> astimezone L local pytz_UTC = Inr um
      \<and> swe_julday L (year um) (month um) (day um)
           (rnd L (rnd L (of_int (hour um) + rnd L (of_int (minute um) / 60))
              + rnd L (of_int (second um) / 3600))) = Inr jd0
      \<and> swe_rise_trans L jd0 SUN CALC_RISE (lon c, lat c, 0) 0 0 = Inr jd_rise
      \<and> swe_revjul L jd_rise GREG_CAL = Inr (y, m, dd, h)
      \<and> truncated_to h hh
      \<and> truncated_to (rnd L (rnd L (h - of_int hh) * 60)) mm
      \<and> truncated_to (rnd L (rnd L (rnd L (rnd L (h - of_int hh) * 60) - of_int mm) * 60)) ss
      \<and> dt_datetime L y m dd hh mm ss (Some pytz_UTC) = Inr su
      \<and> astimezone L su zone = Inr sr)"
  unfolding local_sunrise_def julian_day_def float_add_def float_sub_def float_mul_def
    float_truediv_def py_int_truncated Let_def
  by (auto simp: bind_eq_Inr_iff split: prod.splits)

subsection \<open>Two runs of the local sunrise\<close>

lemma rd_half: "round_double (1 / 2) = 1 / 2"
  using round_double_lt1 [of "1 / 2" 1] by (simp add: round_half_even_def)

lemma rd_18_5: "round_double (37 / 2) = 37 / 2"
  using round_double_ge1 [of 4 "37 / 2"] by (simp add: round_half_even_def)

lemma rd_rest_h:
  "round_double (57545995238623 / 4503599627370496) = 57545995238623 / 4503599627370496"
proof -
  have "round_double (57545995238623 / 4503599627370496) =
      of_int (round_half_even (57545995238623 / 4503599627370496 * 2 ^ (52 + 7))) / 2 ^ (52 + 7)"
    by (rule round_double_lt1) simp_all
  also have "(57545995238623 / 4503599627370496 * 2 ^ (52 + 7) :: real) = 7365887390543744"
    by simp
  also have "round_half_even 7365887390543744 = 7365887390543744"
    by (simp add: round_half_even_def)
  finally show ?thesis by simp
qed

lemma rd_rest_m:
  "round_double (863189928579345 / 1125899906842624) = 863189928579345 / 1125899906842624"
proof -
  have "round_double (863189928579345 / 1125899906842624) =
      of_int (round_half_even (863189928579345 / 1125899906842624 * 2 ^ (52 + 1))) / 2 ^ (52 + 1)"
    by (rule round_double_lt1) simp_all
  also have "(863189928579345 / 1125899906842624 * 2 ^ (52 + 1) :: real) = 6905519428634760"
    by simp
  also have "round_half_even 6905519428634760 = 6905519428634760"
    by (simp add: round_half_even_def)
  finally show ?thesis by simp
qed

text \<open>The rest in seconds lies halfway between two doubles and is rounded up to 46.\<close>

lemma rd_rest_s: "round_double (12947848928690175 / 281474976710656) = 46"
proof -
  have "round_double (12947848928690175 / 281474976710656) =
      of_int (round_half_even (12947848928690175 / 281474976710656 * 2 ^ (52 - 5))) / 2 ^ (52 - 5)"
    by (rule round_double_ge1) simp_all
  also have "(12947848928690175 / 281474976710656 * 2 ^ (52 - 5) :: real)
      = 6473924464345087 + 1 / 2"
    by simp
  also have "round_half_even (6473924464345087 + 1 / 2) = 6473924464345088"
  proof -
    have "\<lfloor>6473924464345087 + 1 / 2 :: real\<rfloor> = 6473924464345087" by linarith
    then show ?thesis by (simp add: round_half_even_def)
  qed
  finally show ?thesis by simp
qed

lemma late_rise_stages:
  "pytz_timezone libs_late_rise (tz mysuru) = Inr (Tz ''Asia/Kolkata'')"
  "date_ymd libs_late_rise 739617 = (2026, 1, 1)"
  "dt_datetime libs_late_rise 2026 1 1 0 0 0 None = Inr midnight_0101"
  "tz_localize libs_late_rise (Tz ''Asia/Kolkata'') midnight_0101
     = Inr (midnight_0101\<lparr>tzinfo := Some (Tz ''Asia/Kolkata'')\<rparr>)"
  "astimezone libs_late_rise (midnight_0101\<lparr>tzinfo := Some (Tz ''Asia/Kolkata'')\<rparr>) pytz_UTC
     = Inr um_0101"
  "swe_julday libs_late_rise (year um_0101) (month um_0101) (day um_0101)
     (rnd libs_late_rise (rnd libs_late_rise (of_int (hour um_0101)
          + rnd libs_late_rise (of_int (minute um_0101) / 60))
        + rnd libs_late_rise (of_int (second um_0101) / 3600))) = Inr (118129981 / 48)"
  "swe_rise_trans libs_late_rise (118129981 / 48) SUN CALC_RISE (lon mysuru, lat mysuru, 0) 0 0
     = Inr (590649974153 / 240000)"
  "swe_revjul libs_late_rise (590649974153 / 240000) GREG_CAL = Inr (2026, 1, 1, 14153 / 10000)"
  "dt_datetime libs_late_rise 2026 1 1 1 24 55 (Some pytz_UTC)
     = Inr \<lparr>year = 2026, month = 1, day = 1, hour = 1, minute = 24, second = 55,
            tzinfo = Some pytz_UTC\<rparr>"
  "astimezone libs_late_rise
     \<lparr>year = 2026, month = 1, day = 1, hour = 1, minute = 24, second = 55, tzinfo = Some pytz_UTC\<rparr>
     (Tz ''Asia/Kolkata'')
     = Inr \<lparr>year = 2026, month = 1, day = 1, hour = 6, minute = 54, second = 55,
            tzinfo = Some (Tz ''Asia/Kolkata'')\<rparr>"
  by (simp_all add: libs_late_rise_def midnight_0101_def um_0101_def exact_rnd_def pytz_UTC_def
      demo_defs Let_def cong: eval_congs)

lemma late_rise_truncations:
  "truncated_to (14153 / 10000) 1"
  "truncated_to (rnd libs_late_rise (rnd libs_late_rise (14153 / 10000 - of_int 1) * 60)) 24"
  "truncated_to (rnd libs_late_rise (rnd libs_late_rise
      (rnd libs_late_rise (rnd libs_late_rise (14153 / 10000 - of_int 1) * 60) - of_int 24) * 60)) 55"
  by (simp_all add: truncated_to_def libs_late_rise_def demo_libs_sel exact_rnd_def)

lemma double_rise_stages:
  "pytz_timezone libs_double_rise (tz mysuru) = Inr (Tz ''Asia/Kolkata'')"
  "date_ymd libs_double_rise 739617 = (2026, 1, 1)"
  "dt_datetime libs_double_rise 2026 1 1 0 0 0 None = Inr midnight_0101"
  "tz_localize libs_double_rise (Tz ''Asia/Kolkata'') midnight_0101
     = Inr (midnight_0101\<lparr>tzinfo := Some (Tz ''Asia/Kolkata'')\<rparr>)"
  "astimezone libs_double_rise (midnight_0101\<lparr>tzinfo := Some (Tz ''Asia/Kolkata'')\<rparr>) pytz_UTC
     = Inr um_0101"
  "swe_rise_trans libs_double_rise (118129981 / 48) SUN CALC_RISE (lon mysuru, lat mysuru, 0) 0 0
     = Inr (118129993 / 48)"
  "swe_revjul libs_double_rise (118129993 / 48) GREG_CAL
     = Inr (2026, 1, 1, 4561145622609119 / 4503599627370496)"
  "dt_datetime libs_double_rise 2026 1 1 1 0 46 (Some pytz_UTC)
     = Inr \<lparr>year = 2026, month = 1, day = 1, hour = 1, minute = 0, second = 46,
            tzinfo = Some pytz_UTC\<rparr>"
  "astimezone libs_double_rise
     \<lparr>year = 2026, month = 1, day = 1, hour = 1, minute = 0, second = 46, tzinfo = Some pytz_UTC\<rparr>
     (Tz ''Asia/Kolkata'')
     = Inr \<lparr>year = 2026, month = 1, day = 1, hour = 6, minute = 30, second = 46,
            tzinfo = Some (Tz ''Asia/Kolkata'')\<rparr>"
  by (simp_all add: libs_double_rise_def midnight_0101_def um_0101_def pytz_UTC_def
      demo_defs Let_def cong: eval_congs)

lemma double_rise_julday:
  "swe_julday libs_double_rise (year um_0101) (month um_0101) (day um_0101)
     (rnd libs_double_rise (rnd libs_double_rise (of_int (hour um_0101)
          + rnd libs_double_rise (of_int (minute um_0101) / 60))
        + rnd libs_double_rise (of_int (second um_0101) / 3600))) = Inr (118129981 / 48)"
proof -
  have r: "rnd libs_double_rise = round_double"
    by (simp add: libs_double_rise_def)
  have j: "swe_julday libs_double_rise = demo_julday"
    by (simp add: libs_double_rise_def demo_libs_sel)
  show ?thesis
    unfolding r j by (simp add: um_0101_def rd_half rd_18_5 round_double_0 demo_julday_def greg_defs)
qed

lemma double_rise_truncations:
  "truncated_to (4561145622609119 / 4503599627370496) 1"
  "truncated_to (rnd libs_double_rise (rnd libs_double_rise
      (4561145622609119 / 4503599627370496 - of_int 1) * 60)) 0"
  "truncated_to (rnd libs_double_rise (rnd libs_double_rise
      (rnd libs_double_rise (rnd libs_double_rise
         (4561145622609119 / 4503599627370496 - of_int 1) * 60) - of_int 0) * 60)) 46"
proof -
  have r: "rnd libs_double_rise = round_double"
    by (simp add: libs_double_rise_def)
  have a: "(4561145622609119 / 4503599627370496 - of_int 1 :: real)
      = 57545995238623 / 4503599627370496" by simp
  have b: "(57545995238623 / 4503599627370496 * 60 :: real) = 863189928579345 / 1125899906842624"
    by simp
  have c: "(863189928579345 / 1125899906842624 - of_int 0 :: real)
      = 863189928579345 / 1125899906842624" by simp
  have d: "(863189928579345 / 1125899906842624 * 60 :: real) = 12947848928690175 / 281474976710656"
    by simp
  show "truncated_to (4561145622609119 / 4503599627370496) 1"
    by (simp add: truncated_to_def)
  show "truncated_to (rnd libs_double_rise (rnd libs_double_rise
      (4561145622609119 / 4503599627370496 - of_int 1) * 60)) 0"
    unfolding r a rd_rest_h b rd_rest_m by (simp add: truncated_to_def)
  show "truncated_to (rnd libs_double_rise (rnd libs_double_rise
      (rnd libs_double_rise (rnd libs_double_rise
         (4561145622609119 / 4503599627370496 - of_int 1) * 60) - of_int 0) * 60)) 46"
    unfolding r a rd_rest_h b rd_rest_m c d rd_rest_s by (simp add: truncated_to_def)
qed

theorem local_sunrise_pipeline_witness:
  "local_sunrise libs_late_rise 739617 mysuru
     = Inr \<lparr>year = 2026, month = 1, day = 1, hour = 6, minute = 54, second = 55,
            tzinfo = Some (Tz ''Asia/Kolkata'')\<rparr>
   \<and> local_sunrise libs_double_rise 739617 mysuru
     = Inr \<lparr>year = 2026, month = 1, day = 1, hour = 6, minute = 30, second = 46,
            tzinfo = Some (Tz ''Asia/Kolkata'')\<rparr>"
proof
  show "local_sunrise libs_late_rise 739617 mysuru
     = Inr \<lparr>year = 2026, month = 1, day = 1, hour = 6, minute = 54, second = 55,
            tzinfo = Some (Tz ''Asia/Kolkata'')\<rparr>"
    by (rule iffD2 [OF local_sunrise_pipeline], intro exI conjI)
      (rule late_rise_stages late_rise_truncations)+
  show "local_sunrise libs_double_rise 739617 mysuru
     = Inr \<lparr>year = 2026, month = 1, day = 1, hour = 6, minute = 30, second = 46,
            tzinfo = Some (Tz ''Asia/Kolkata'')\<rparr>"
    by (rule iffD2 [OF local_sunrise_pipeline], intro exI conjI)
      (rule double_rise_stages double_rise_julday double_rise_truncations)+
qed

section \<open>Exceptions\<close>

lemma raised_byI:
  "pytz_timezone L n = Inl e \<Longrightarrow> raised_by L e"
  "tz_localize L z x = Inl e \<Longrightarrow> raised_by L e"
  "astimezone L x z = Inl e \<Longrightarrow> raised_by L e"
  "dt_datetime L y m d hh mm ss zo = Inl e \<Longrightarrow> raised_by L e"
  "swe_julday L y m d h = Inl e \<Longrightarrow> raised_by L e"
  "swe_calc_ut L jd b = Inl e \<Longrightarrow> raised_by L e"
  "swe_rise_trans L jd b f g p t = Inl e \<Longrightarrow> raised_by L e"
  "swe_revjul L jd cf = Inl e \<Longrightarrow> raised_by L e"
  unfolding raised_by_def by metis+

lemma julian_day_raised: "julian_day L x = Inl e \<Longrightarrow> raised_by L e"
  unfolding julian_day_def by (rule raised_byI)

lemma tithi_at_jd_raised: "tithi_at_jd L jd = Inl e \<Longrightarrow> raised_by L e"
  unfolding tithi_at_jd_def Let_def
  by (auto simp: bind_eq_Inl_iff intro: raised_byI)

lemma local_midnight_utcD:
  assumes "local_midnight_utc L d c = Inr um"
  shows "\<exists>zone midnight local.
           pytz_timezone L (tz c) = Inr zone
         \<and> dt_datetime L (fst (date_ymd L d)) (fst (snd (date_ymd L d))) (snd (snd (date_ymd L d)))
               0 0 0 None = Inr midnight
         \<and> tz_localize L zone midnight = Inr local
         \<and> astimezone L local pytz_UTC = Inr um"
  using assms unfolding local_midnight_utc_def by (auto simp: bind_eq_Inr_iff)

lemma local_midnight_utc_fails:
  assumes "local_midnight_utc L d c = Inl e"
  shows "local_sunrise L d c = Inl e"
  using assms unfolding local_midnight_utc_def local_sunrise_unfold
  by (auto simp: bind_eq_Inl_iff bind_Inl bind_Inr)

text \<open>\<open>local_sunrise\<close> from the Julian-day conversion on, once the UTC midnight is there.\<close>

lemma local_sunrise_from_midnight:
  assumes "local_midnight_utc L d c = Inr um"
  shows "\<exists>k. local_sunrise L d c =
           bind (julian_day L um) (\<lambda>jd0.
           bind (swe_rise_trans L jd0 SUN CALC_RISE (lon c, lat c, 0) 0 0) (\<lambda>jd_rise.
           bind (swe_revjul L jd_rise GREG_CAL) k))"
proof -
  from local_midnight_utcD [OF assms] obtain zone midnight local where
    s: "pytz_timezone L (tz c) = Inr zone"
       "dt_datetime L (fst (date_ymd L d)) (fst (snd (date_ymd L d))) (snd (snd (date_ymd L d)))
          0 0 0 None = Inr midnight"
       "tz_localize L zone midnight = Inr local"
       "astimezone L local pytz_UTC = Inr um"
    by blast
  show ?thesis
    unfolding local_sunrise_unfold by (simp only: s bind_Inr) (rule exI, rule refl)
qed

lemma local_sunrise_raised:
  assumes "local_sunrise L d c = Inl e"
  shows "raised_by L e"
  using assms unfolding local_sunrise_unfold julian_day_def Let_def
  by (auto simp: bind_eq_Inl_iff intro: raised_byI)

lemma detect_event_raised:
  assumes "detect_event L d c = Inl e"
  shows "raised_by L e"
proof -
  from assms consider
      (a) d' where "local_sunrise L d' c = Inl e"
    | (b) x z where "astimezone L x z = Inl e"
    | (c) x where "julian_day L x = Inl e"
    | (d) jd where "tithi_at_jd L jd = Inl e"
    unfolding detect_event_def detect_decision by (auto simp: bind_eq_Inl_iff)
  then show ?thesis
  proof cases
    case a
    then show ?thesis by (rule local_sunrise_raised)
  next
    case b
    then show ?thesis by (rule raised_byI)
  next
    case c
    then show ?thesis by (rule julian_day_raised)
  next
    case d
    then show ?thesis by (rule tithi_at_jd_raised)
  qed
qed

lemma scan_step_Inl_iff: "scan_step L c d st = Inl e \<longleftrightarrow> detect_event L d c = Inl e"
  by (cases st) (auto simp: scan_step_def bind_eq_Inl_iff split: option.splits)

lemma scan_days_Inl:
  "scan_days L c d st = Inl e \<Longrightarrow> \<exists>d'. d \<le> d' \<and> d' \<le> END_DATE \<and> detect_event L d' c = Inl e"
proof (induction L c d st rule: scan_days.induct)
  case (1 L c d st)
  from "1.prems" have le: "d \<le> END_DATE"
    by (subst (asm) scan_days.simps) (simp split: if_splits)
  show ?case
  proof (cases "scan_step L c d st")
    case (Inl e')
    with "1.prems" le have "e' = e"
      by (subst (asm) scan_days.simps) simp
    with Inl have "detect_event L d c = Inl e" by (simp add: scan_step_Inl_iff)
    with le show ?thesis by auto
  next
    case (Inr st')
    with "1.prems" le have "scan_days L c (d + 1) st' = Inl e"
      by (subst (asm) scan_days.simps) simp
    from "1.IH" [OF le Inr this] obtain d' where
      "d + 1 \<le> d'" "d' \<le> END_DATE" "detect_event L d' c = Inl e" by blast
    then show ?thesis by (intro exI [of _ d']) simp
  qed
qed

lemma scan_days_first_failure:
  assumes "d0 \<le> d" "d \<le> END_DATE" "detect_event L d c = Inl e"
    and "\<forall>d'. d0 \<le> d' \<and> d' < d \<longrightarrow> (\<exists>k. detect_event L d' c = Inr k)"
  shows "scan_days L c d0 st = Inl e"
  using assms
proof (induction L c d0 st rule: scan_days.induct)
  case (1 L c d0 st)
  from "1.prems" have le: "d0 \<le> END_DATE" by simp
  show ?case
  proof (cases "d0 = d")
    case True
    with "1.prems" have "scan_step L c d0 st = Inl e" by (simp add: scan_step_Inl_iff)
    with le show ?thesis by (subst scan_days.simps) simp
  next
    case False
    with "1.prems" have lt: "d0 < d" by simp
    with "1.prems" obtain k where "detect_event L d0 c = Inr k" by blast
    then have "\<exists>st'. scan_step L c d0 st = Inr st'"
      by (cases st) (simp add: scan_step_def bind_Inr split: option.splits)
    then obtain st' where s: "scan_step L c d0 st = Inr st'" ..
    from lt have a: "d0 + 1 \<le> d" by simp
    from "1.prems" have b: "\<forall>d'. d0 + 1 \<le> d' \<and> d' < d \<longrightarrow> (\<exists>k. detect_event L d' c = Inr k)"
      by auto
    from "1.IH" [OF le s a "1.prems"(2) "1.prems"(3) b]
    have "scan_days L c (d0 + 1) st' = Inl e" .
    with le s show ?thesis by (subst scan_days.simps) simp
  qed
qed

text \<open>
  Claim C5.  Nothing in the pipeline catches or alters an exception.  A failure of the
  conversion of the local midnight, of the Julian-day conversion, of the rise/transit
  solver or of the conversion back is the result of \<open>local_sunrise\<close>; a failure of the
  position query is the result of \<open>tithi_at_jd\<close>; a failure of \<open>local_sunrise\<close> for
  the date, or for the next date once the first sunrise is there, is the result of
  \<open>detect_event\<close>, and so is, once both sunrises are there, the failure of the first
  call that fails among the conversion of the first sunrise to UTC, its Julian-day
  conversion, the same two for the second sunrise, and the tithi (the position queries) at
  the first and at the second sunrise; a failure of \<open>detect_event\<close> ends the loop body
  with that failure instead of a new loop state, so nothing is appended for that day; and
  the failure of the first day of the range on which \<open>detect_event\<close> fails is the result
  of the full-range scan.  Conversely every exception that the scan returns was raised by
  a call into the libraries, for a day of the range.
\<close>

theorem failures_propagate:
  "(local_midnight_utc L d c = Inl e \<longrightarrow> local_sunrise L d c = Inl e)
   \<and> (local_midnight_utc L d c = Inr um \<longrightarrow> julian_day L um = Inl e \<longrightarrow> local_sunrise L d c = Inl e)
   \<and> (local_midnight_utc L d c = Inr um \<longrightarrow> julian_day L um = Inr jd0 \<longrightarrow>
        swe_rise_trans L jd0 SUN CALC_RISE (lon c, lat c, 0) 0 0 = Inl e \<longrightarrow>
        local_sunrise L d c = Inl e)
   \<and> (local_midnight_utc L d c = Inr um \<longrightarrow> julian_day L um = Inr jd0 \<longrightarrow>
        swe_rise_trans L jd0 SUN CALC_RISE (lon c, lat c, 0) 0 0 = Inr jd_rise \<longrightarrow>
        swe_revjul L jd_rise GREG_CAL = Inl e \<longrightarrow>
        local_sunrise L d c = Inl e)
   \<and> (swe_calc_ut L jd SUN = Inl e \<longrightarrow> tithi_at_jd L jd = Inl e)
   \<and> (swe_calc_ut L jd SUN = Inr sun \<longrightarrow> swe_calc_ut L jd MOON = Inl e \<longrightarrow> tithi_at_jd L jd = Inl e)
   \<and> (local_sunrise L d c = Inl e \<longrightarrow> detect_event L d c = Inl e)
   \<and> (local_sunrise L d c = Inr sr0 \<longrightarrow> local_sunrise L (d + 1) c = Inl e \<longrightarrow>
        detect_event L d c = Inl e)
   \<and> (local_sunrise L d c = Inr sr0 \<longrightarrow> local_sunrise L (d + 1) c = Inr sr1 \<longrightarrow>
        astimezone L sr0 pytz_UTC = Inl e \<longrightarrow>
        detect_event L d c = Inl e)
   \<and> (local_sunrise L d c = Inr sr0 \<longrightarrow> local_sunrise L (d + 1) c = Inr sr1 \<longrightarrow>
        astimezone L sr0 pytz_UTC = Inr u0 \<longrightarrow> julian_day L u0 = Inl e \<longrightarrow>
        detect_event L d c = Inl e)
   \<and> (local_sunrise L d c = Inr sr0 \<longrightarrow> local_sunrise L (d + 1) c = Inr sr1 \<longrightarrow>
        astimezone L sr0 pytz_UTC = Inr u0 \<longrightarrow> julian_day L u0 = Inr j0 \<longrightarrow>
        astimezone L sr1 pytz_UTC = Inl e \<longrightarrow>
        detect_event L d c = Inl e)
   \<and> (local_sunrise L d c = Inr sr0 \<longrightarrow> local_sunrise L (d + 1) c = Inr sr1 \<longrightarrow>
        astimezone L sr0 pytz_UTC = Inr u0 \<longrightarrow> julian_day L u0 = Inr j0 \<longrightarrow>
        astimezone L sr1 pytz_UTC = Inr u1 \<longrightarrow> julian_day L u1 = Inl e \<longrightarrow>
        detect_event L d c = Inl e)
   \<and> (local_sunrise L d c = Inr sr0 \<longrightarrow> local_sunrise L (d + 1) c = Inr sr1 \<longrightarrow>
        astimezone L sr0 pytz_UTC = Inr u0 \<longrightarrow> julian_day L u0 = Inr j0 \<longrightarrow>
        astimezone L sr1 pytz_UTC = Inr u1 \<longrightarrow> julian_day L u1 = Inr j1 \<longrightarrow>
        tithi_at_jd L j0 = Inl e \<longrightarrow>
        detect_event L d c = Inl e)
   \<and> (local_sunrise L d c = Inr sr0 \<longrightarrow> local_sunrise L (d + 1) c = Inr sr1 \<longrightarrow>
        astimezone L sr0 pytz_UTC = Inr u0 \<longrightarrow> julian_day L u0 = Inr j0 \<longrightarrow>
        astimezone L sr1 pytz_UTC = Inr u1 \<longrightarrow> julian_day L u1 = Inr j1 \<longrightarrow>
        tithi_at_jd L j0 = Inr t0 \<longrightarrow> tithi_at_jd L j1 = Inl e \<longrightarrow>
        detect_event L d c = Inl e)
   \<and> (detect_event L d c = Inl e \<longrightarrow> scan_step L c d st = Inl e)
   \<and> (START_DATE \<le> d \<longrightarrow> d \<le> END_DATE \<longrightarrow> detect_event L d c = Inl e \<longrightarrow>
        (\<forall>d'. START_DATE \<le> d' \<and> d' < d \<longrightarrow> (\<exists>k. detect_event L d' c = Inr k)) \<longrightarrow>
        generate_moon_days L c = Inl e)
   \<and> (generate_moon_days L c = Inl e \<longrightarrow>
        raised_by L e \<and> (\<exists>d'. START_DATE \<le> d' \<and> d' \<le> END_DATE \<and> detect_event L d' c = Inl e))"
proof (intro conjI impI)
  show "local_sunrise L d c = Inl e" if "local_midnight_utc L d c = Inl e"
    using that by (rule local_midnight_utc_fails)
  show "local_sunrise L d c = Inl e"
    if "local_midnight_utc L d c = Inr um" "julian_day L um = Inl e"
    using local_sunrise_from_midnight [OF that(1)] that(2) by (auto simp: bind_Inl)
  show "local_sunrise L d c = Inl e"
    if "local_midnight_utc L d c = Inr um" "julian_day L um = Inr jd0"
      "swe_rise_trans L jd0 SUN CALC_RISE (lon c, lat c, 0) 0 0 = Inl e"
    using local_sunrise_from_midnight [OF that(1)] that(2,3) by (auto simp: bind_Inl bind_Inr)
  show "local_sunrise L d c = Inl e"
    if "local_midnight_utc L d c = Inr um" "julian_day L um = Inr jd0"
      "swe_rise_trans L jd0 SUN CALC_RISE (lon c, lat c, 0) 0 0 = Inr jd_rise"
      "swe_revjul L jd_rise GREG_CAL = Inl e"
    using local_sunrise_from_midnight [OF that(1)] that(2,3,4) by (auto simp: bind_Inl bind_Inr)
  show "tithi_at_jd L jd = Inl e" if "swe_calc_ut L jd SUN = Inl e"
    using that by (simp add: tithi_at_jd_def bind_Inl)
  show "tithi_at_jd L jd = Inl e" if "swe_calc_ut L jd SUN = Inr sun" "swe_calc_ut L jd MOON = Inl e"
    using that by (simp add: tithi_at_jd_def bind_Inl bind_Inr)
  show "detect_event L d c = Inl e" if "local_sunrise L d c = Inl e"
    using that by (simp add: detect_event_def bind_Inl)
  show "detect_event L d c = Inl e"
    if "local_sunrise L d c = Inr sr0" "local_sunrise L (d + 1) c = Inl e"
    using that by (simp add: detect_event_def bind_Inl bind_Inr)
  show "detect_event L d c = Inl e"
    if "local_sunrise L d c = Inr sr0" "local_sunrise L (d + 1) c = Inr sr1"
      "astimezone L sr0 pytz_UTC = Inl e"
    using that by (simp add: detect_event_def bind_Inl bind_Inr)
  show "detect_event L d c = Inl e"
    if "local_sunrise L d c = Inr sr0" "local_sunrise L (d + 1) c = Inr sr1"
      "astimezone L sr0 pytz_UTC = Inr u0" "julian_day L u0 = Inl e"
    using that by (simp add: detect_event_def bind_Inl bind_Inr)
  show "detect_event L d c = Inl e"
    if "local_sunrise L d c = Inr sr0" "local_sunrise L (d + 1) c = Inr sr1"
      "astimezone L sr0 pytz_UTC = Inr u0" "julian_day L u0 = Inr j0"
      "astimezone L sr1 pytz_UTC = Inl e"
    using that by (simp add: detect_event_def bind_Inl bind_Inr)
  show "detect_event L d c = Inl e"
    if "local_sunrise L d c = Inr sr0" "local_sunrise L (d + 1) c = Inr sr1"
      "astimezone L sr0 pytz_UTC = Inr u0" "julian_day L u0 = Inr j0"
      "astimezone L sr1 pytz_UTC = Inr u1" "julian_day L u1 = Inl e"
    using that by (simp add: detect_event_def bind_Inl bind_Inr)
  show "detect_event L d c = Inl e"
    if "local_sunrise L d c = Inr sr0" "local_sunrise L (d + 1) c = Inr sr1"
      "astimezone L sr0 pytz_UTC = Inr u0" "julian_day L u0 = Inr j0"
      "astimezone L sr1 pytz_UTC = Inr u1" "julian_day L u1 = Inr j1"
      "tithi_at_jd L j0 = Inl e"
    using that by (simp add: detect_event_def bind_Inl bind_Inr)
  show "detect_event L d c = Inl e"
    if "local_sunrise L d c = Inr sr0" "local_sunrise L (d + 1) c = Inr sr1"
      "astimezone L sr0 pytz_UTC = Inr u0" "julian_day L u0 = Inr j0"
      "astimezone L sr1 pytz_UTC = Inr u1" "julian_day L u1 = Inr j1"
      "tithi_at_jd L j0 = Inr t0" "tithi_at_jd L j1 = Inl e"
    using that by (simp add: detect_event_def bind_Inl bind_Inr)
  show "scan_step L c d st = Inl e" if "detect_event L d c = Inl e"
    using that by (simp add: scan_step_Inl_iff)
  show "generate_moon_days L c = Inl e"
    if "START_DATE \<le> d" "d \<le> END_DATE" "detect_event L d c = Inl e"
      "\<forall>d'. START_DATE \<le> d' \<and> d' < d \<longrightarrow> (\<exists>k. detect_event L d' c = Inr k)"
    unfolding generate_moon_days_def using that by (rule scan_days_first_failure)
  assume g: "generate_moon_days L c = Inl e"
  from scan_days_Inl [OF g [unfolded generate_moon_days_def]]
  obtain d' where d': "START_DATE \<le> d'" "d' \<le> END_DATE" "detect_event L d' c = Inl e"
    by blast
  from d'(3) show "raised_by L e" by (rule detect_event_raised)
  from d' show "\<exists>d'. START_DATE \<le> d' \<and> d' \<le> END_DATE \<and> detect_event L d' c = Inl e"
    by blast
qed

subsection \<open>Runs with failing libraries\<close>

lemma no_zone_1: "local_midnight_utc libs_no_zone 739617 mysuru = Inl (UnknownTimeZoneError ''Asia/Kolkata'')"
  by (simp add: libs_no_zone_def local_midnight_utc_def eval_simps cong: eval_congs)

lemma no_julday_1: "local_midnight_utc libs_no_julday 739617 mysuru = Inr um_0101"
  by (simp add: libs_no_julday_def um_0101_def local_midnight_utc_def eval_simps cong: eval_congs)

lemma no_julday_2: "julian_day libs_no_julday um_0101 = Inl (SweError ''julday'')"
  by (simp add: libs_no_julday_def julian_day_def)

lemma no_rise_1: "local_midnight_utc libs_no_rise 739619 mysuru = Inr um_0103"
  by (simp add: libs_no_rise_def um_0103_def local_midnight_utc_def eval_simps cong: eval_congs)

lemma no_rise_2: "julian_day libs_no_rise um_0103 = Inr (118130077 / 48)"
  by (simp add: libs_no_rise_def um_0103_def eval_simps cong: eval_congs)

lemma no_rise_3:
  "swe_rise_trans libs_no_rise (118130077 / 48) SUN CALC_RISE (lon mysuru, lat mysuru, 0) 0 0
     = Inl (SweError ''rise_trans'')"
  by (simp add: libs_no_rise_def demo_libs_sel demo_rise_trans_def)

lemma no_revjul_1: "local_midnight_utc libs_no_revjul 739617 mysuru = Inr um_0101"
  by (simp add: libs_no_revjul_def um_0101_def local_midnight_utc_def eval_simps cong: eval_congs)

lemma no_revjul_2: "julian_day libs_no_revjul um_0101 = Inr (118129981 / 48)"
  by (simp add: libs_no_revjul_def um_0101_def eval_simps cong: eval_congs)

lemma no_revjul_3:
  "swe_rise_trans libs_no_revjul (118129981 / 48) SUN CALC_RISE (lon mysuru, lat mysuru, 0) 0 0
     = Inr (118129993 / 48)"
  by (simp add: libs_no_revjul_def demo_libs_sel demo_rise_trans_def)

lemma no_revjul_4: "swe_revjul libs_no_revjul (118129993 / 48) GREG_CAL = Inl (SweError ''revjul'')"
  by (simp add: libs_no_revjul_def)

lemma no_sun_1: "swe_calc_ut libs_no_sun 2461042 SUN = Inl (SweError ''calc_ut'')"
  by (simp add: libs_no_sun_def)

lemma no_moon_1: "swe_calc_ut libs_no_moon 2461042 SUN = Inr 0"
  by (simp add: libs_no_moon_def)

lemma no_moon_2: "swe_calc_ut libs_no_moon 2461042 MOON = Inl (SweError ''calc_ut'')"
  by (simp add: libs_no_moon_def)

lemma no_rise_4:
  "local_sunrise libs_no_rise 739618 mysuru =
     Inr \<lparr>year = 2026, month = 1, day = 2, hour = 6, minute = 0, second = 0,
          tzinfo = Some (Tz ''Asia/Kolkata'')\<rparr>"
  by (simp add: libs_no_rise_def eval_simps cong: eval_congs)

lemma no_rise_5: "tithi_at_sunrise libs_no_rise 739617 mysuru = Inr 15"
  by (simp add: libs_no_rise_def demo_moon_def eval_simps cong: eval_congs)

lemma no_rise_6: "tithi_at_sunrise libs_no_rise 739618 mysuru = Inr 15"
  by (simp add: libs_no_rise_def demo_moon_def eval_simps cong: eval_congs)

lemma no_rise_7: "detect_event libs_no_rise 739617 mysuru = Inr (Some KIND_PURNIMA)"
  using detect_event_eq [OF no_rise_5] no_rise_6 by (simp add: event_rule_def)

lemma no_moon_3: "local_sunrise libs_no_moon 739617 mysuru = Inr sr_0101"
  by (simp add: libs_no_moon_def sr_0101_def eval_simps cong: eval_congs)

lemma no_moon_4: "local_sunrise libs_no_moon (739617 + 1) mysuru = Inr sr_0102"
  by (simp add: libs_no_moon_def sr_0102_def eval_simps cong: eval_congs)

lemma no_moon_5: "astimezone libs_no_moon sr_0101 pytz_UTC = Inr us_0101"
  by (simp add: libs_no_moon_def sr_0101_def us_0101_def eval_simps cong: eval_congs)

lemma no_moon_6: "julian_day libs_no_moon us_0101 = Inr (118129993 / 48)"
  by (simp add: libs_no_moon_def us_0101_def eval_simps cong: eval_congs)

lemma no_moon_7: "astimezone libs_no_moon sr_0102 pytz_UTC = Inr us_0102"
  by (simp add: libs_no_moon_def sr_0102_def us_0102_def eval_simps cong: eval_congs)

lemma no_moon_8: "julian_day libs_no_moon us_0102 = Inr (118130041 / 48)"
  by (simp add: libs_no_moon_def us_0102_def eval_simps cong: eval_congs)

lemma no_moon_9: "swe_calc_ut libs_no_moon (118129993 / 48) SUN = Inr 0"
  by (simp add: libs_no_moon_def)

lemma no_moon_10: "swe_calc_ut libs_no_moon (118129993 / 48) MOON = Inl (SweError ''calc_ut'')"
  by (simp add: libs_no_moon_def)

lemma no_dawn_1: "local_sunrise libs_no_julday_dawn 739617 mysuru = Inr sr_0101"
  by (simp add: libs_no_julday_dawn_def sr_0101_def eval_simps cong: eval_congs)

lemma no_dawn_2: "local_sunrise libs_no_julday_dawn (739617 + 1) mysuru = Inr sr_0102"
  by (simp add: libs_no_julday_dawn_def sr_0102_def eval_simps cong: eval_congs)

lemma no_dawn_3: "astimezone libs_no_julday_dawn sr_0101 pytz_UTC = Inr us_0101"
  by (simp add: libs_no_julday_dawn_def sr_0101_def us_0101_def eval_simps cong: eval_congs)

lemma no_dawn_4: "julian_day libs_no_julday_dawn us_0101 = Inl (SweError ''julday'')"
  by (simp add: libs_no_julday_dawn_def us_0101_def eval_simps cong: eval_congs)

lemma first_day_of_range:
  "START_DATE \<le> 739617" "739617 \<le> END_DATE"
  "\<forall>d'. START_DATE \<le> d' \<and> d' < 739617 \<longrightarrow> (\<exists>k. detect_event L d' c = Inr k)"
  by (auto simp: START_DATE_def END_DATE_def)

theorem failures_propagate_witness:
  "local_sunrise libs_no_zone 739617 mysuru = Inl (UnknownTimeZoneError ''Asia/Kolkata'')
   \<and> local_sunrise libs_no_julday 739617 mysuru = Inl (SweError ''julday'')
   \<and> local_sunrise libs_no_rise 739619 mysuru = Inl (SweError ''rise_trans'')
   \<and> local_sunrise libs_no_revjul 739617 mysuru = Inl (SweError ''revjul'')
   \<and> tithi_at_jd libs_no_sun 2461042 = Inl (SweError ''calc_ut'')
   \<and> tithi_at_jd libs_no_moon 2461042 = Inl (SweError ''calc_ut'')
   \<and> detect_event libs_no_rise 739619 mysuru = Inl (SweError ''rise_trans'')
   \<and> detect_event libs_no_rise 739617 mysuru = Inr (Some KIND_PURNIMA)
   \<and> detect_event libs_no_rise 739618 mysuru = Inl (SweError ''rise_trans'')
   \<and> scan_step libs_no_rise mysuru 739618
        ([\<lparr>index = 0, date = 739617, kind = KIND_PURNIMA\<rparr>], Some 739617) = Inl (SweError ''rise_trans'')
   \<and> generate_moon_days libs_no_rise mysuru = Inl (SweError ''rise_trans'')
   \<and> raised_by libs_no_rise (SweError ''rise_trans'')
   \<and> detect_event libs_no_moon 739617 mysuru = Inl (SweError ''calc_ut'')
   \<and> generate_moon_days libs_no_moon mysuru = Inl (SweError ''calc_ut'')
   \<and> detect_event libs_no_julday_dawn 739617 mysuru = Inl (SweError ''julday'')
   \<and> generate_moon_days libs_no_julday_dawn mysuru = Inl (SweError ''julday'')"
proof -
  let ?e = "SweError ''rise_trans''"
  note T = failures_propagate
  have 1: "local_sunrise libs_no_zone 739617 mysuru = Inl (UnknownTimeZoneError ''Asia/Kolkata'')"
    using T [of libs_no_zone 739617 mysuru "UnknownTimeZoneError ''Asia/Kolkata''"] no_zone_1
    by simp
  have 2: "local_sunrise libs_no_julday 739617 mysuru = Inl (SweError ''julday'')"
    using T [of libs_no_julday 739617 mysuru "SweError ''julday''" um_0101] no_julday_1 no_julday_2
    by simp
  have 3: "local_sunrise libs_no_rise 739619 mysuru = Inl ?e"
    using T [of libs_no_rise 739619 mysuru ?e um_0103 "118130077 / 48"] no_rise_1 no_rise_2 no_rise_3
    by simp
  have 4: "local_sunrise libs_no_revjul 739617 mysuru = Inl (SweError ''revjul'')"
    using T [of libs_no_revjul 739617 mysuru "SweError ''revjul''" um_0101 "118129981 / 48" "118129993 / 48"]
      no_revjul_1 no_revjul_2 no_revjul_3 no_revjul_4
    by simp
  have 5: "tithi_at_jd libs_no_sun 2461042 = Inl (SweError ''calc_ut'')"
    using T [of libs_no_sun _ _ "SweError ''calc_ut''" _ _ _ 2461042] no_sun_1 by simp
  have 6: "tithi_at_jd libs_no_moon 2461042 = Inl (SweError ''calc_ut'')"
    using T [of libs_no_moon _ _ "SweError ''calc_ut''" _ _ _ 2461042 0] no_moon_1 no_moon_2 by simp
  have 7: "detect_event libs_no_rise 739619 mysuru = Inl ?e"
    using T [of libs_no_rise 739619 mysuru ?e] 3 by simp
  have n3: "local_sunrise libs_no_rise (739618 + 1) mysuru = Inl ?e"
    using 3 by simp
  have 8: "detect_event libs_no_rise 739618 mysuru = Inl ?e"
    using T [of libs_no_rise 739618 mysuru ?e _ _ _ _ _ "\<lparr>year = 2026, month = 1, day = 2, hour = 6, minute = 0, second = 0,
          tzinfo = Some (Tz ''Asia/Kolkata'')\<rparr>"] no_rise_4 n3
    by simp
  have 9: "scan_step libs_no_rise mysuru 739618
        ([\<lparr>index = 0, date = 739617, kind = KIND_PURNIMA\<rparr>], Some 739617) = Inl ?e"
    using T [of libs_no_rise 739618 mysuru ?e] 8 by simp
  have before: "\<forall>d'. START_DATE \<le> d' \<and> d' < 739618 \<longrightarrow> (\<exists>k. detect_event libs_no_rise d' mysuru = Inr k)"
  proof (intro allI impI)
    fix d' assume "START_DATE \<le> d' \<and> d' < 739618"
    then have "d' = 739617" by (simp add: START_DATE_def)
    with no_rise_7 show "\<exists>k. detect_event libs_no_rise d' mysuru = Inr k" by simp
  qed
  have r: "START_DATE \<le> 739618" "739618 \<le> END_DATE"
    by (simp_all add: START_DATE_def END_DATE_def)
  have 10: "generate_moon_days libs_no_rise mysuru = Inl ?e"
    using T [of libs_no_rise 739618 mysuru ?e] 8 before r by simp
  have 11: "raised_by libs_no_rise ?e"
    using T [of libs_no_rise 739618 mysuru ?e] 10 by simp
  let ?c = "SweError ''calc_ut''"
  have 12: "tithi_at_jd libs_no_moon (118129993 / 48) = Inl ?c"
    using T [where L = libs_no_moon and e = ?c and jd = "118129993 / 48" and sun = 0]
      no_moon_9 no_moon_10 by simp
  have 13: "detect_event libs_no_moon 739617 mysuru = Inl ?c"
    using T [where L = libs_no_moon and d = 739617 and c = mysuru and e = ?c and ?sr0.0 = sr_0101
        and ?sr1.0 = sr_0102 and ?u0.0 = us_0101 and ?j0.0 = "118129993 / 48"
        and ?u1.0 = us_0102 and ?j1.0 = "118130041 / 48"]
      no_moon_3 no_moon_4 no_moon_5 no_moon_6 no_moon_7 no_moon_8 12 by simp
  have 14: "generate_moon_days libs_no_moon mysuru = Inl ?c"
    using T [where L = libs_no_moon and d = 739617 and c = mysuru and e = ?c]
      13 first_day_of_range by simp
  let ?j = "SweError ''julday''"
  have 15: "detect_event libs_no_julday_dawn 739617 mysuru = Inl ?j"
    using T [where L = libs_no_julday_dawn and d = 739617 and c = mysuru and e = ?j
        and ?sr0.0 = sr_0101 and ?sr1.0 = sr_0102 and ?u0.0 = us_0101]
      no_dawn_1 no_dawn_2 no_dawn_3 no_dawn_4 by simp
  have 16: "generate_moon_days libs_no_julday_dawn mysuru = Inl ?j"
    using T [where L = libs_no_julday_dawn and d = 739617 and c = mysuru and e = ?j]
      15 first_day_of_range by simp
  from 1 2 3 4 5 6 7 no_rise_7 8 9 10 11 13 14 15 16 show ?thesis by blast
qed

section \<open>The one-year table\<close>

lemma is_moon_day_Inr_iff:
  "is_moon_day L d c = Inr b \<longleftrightarrow>
     (\<exists>t. tithi_at_sunrise L d c = Inr t \<and> b = (t = 15 \<or> t = 30))"
  unfolding is_moon_day_def tithi_at_sunrise_def
  by (auto simp: bind_eq_Inr_iff AMAVASYA_def PURNIMA_def)

lemma collect_moon_days_result:
  "collect_moon_days L c d results = Inr S \<Longrightarrow>
     S = results \<union> {d'. d \<le> d' \<and> d' \<le> YEAR_END \<and> moon_day_at L c d'}"
proof (induction L c d results rule: collect_moon_days.induct)
  case (1 L c d results)
  show ?case
  proof (cases "d \<le> YEAR_END")
    case True
    with "1.prems" obtain b where b: "is_moon_day L d c = Inr b"
      and r: "collect_moon_days L c (d + 1) (if b then insert d results else results) = Inr S"
      by (subst (asm) collect_moon_days.simps) (auto split: sum.splits)
    from b have bd: "b = moon_day_at L c d"
      by (auto simp: is_moon_day_Inr_iff moon_day_at_def)
    from "1.IH" [OF True b r]
    have S: "S = (if b then insert d results else results)
                   \<union> {d'. d + 1 \<le> d' \<and> d' \<le> YEAR_END \<and> moon_day_at L c d'}" .
    have split: "{d'. d \<le> d' \<and> d' \<le> YEAR_END \<and> moon_day_at L c d'} =
        (if moon_day_at L c d then {d} else {}) \<union> {d'. d + 1 \<le> d' \<and> d' \<le> YEAR_END \<and> moon_day_at L c d'}"
      using True by (auto simp: order_le_less)
    show ?thesis unfolding S split bd by auto
  next
    case False
    with "1.prems" have "S = results"
      by (subst (asm) collect_moon_days.simps) simp
    with False show ?thesis by auto
  qed
qed

lemma moon_days_for_city_result:
  assumes "moon_days_for_city L c = Inr ds"
  shows "ds = sorted_list_of_set {d. YEAR_START \<le> d \<and> d \<le> YEAR_END \<and> moon_day_at L c d}"
proof -
  from assms obtain S where S: "collect_moon_days L c YEAR_START {} = Inr S"
    and ds: "ds = sorted_list_of_set S"
    by (auto simp: moon_days_for_city_def bind_eq_Inr_iff)
  from collect_moon_days_result [OF S] ds show ?thesis by simp
qed

lemma finite_year_days: "finite {d. YEAR_START \<le> d \<and> d \<le> YEAR_END \<and> P d}"
proof (rule finite_subset)
  show "{d. YEAR_START \<le> d \<and> d \<le> YEAR_END \<and> P d} \<subseteq> {YEAR_START..YEAR_END}" by auto
qed simp

lemma kshaya_not_moon_day:
  assumes "detect_event L d c = Inr (Some k)" and "is_kshaya k"
  shows "\<not> moon_day_at L c d"
proof -
  from assms(1) obtain t0 t1 where t0: "tithi_at_sunrise L d c = Inr t0"
    and k: "Some k = event_rule t0 t1"
    by (auto simp: detect_event_Inr_iff)
  from k assms(2) have "t0 \<noteq> 15 \<and> t0 \<noteq> 30"
    by (auto simp: event_rule_def is_kshaya_def KIND_PURNIMA_def KIND_AMAVASYA_def
        KIND_KSHAYA_PURNIMA_def KIND_KSHAYA_AMAVASYA_def split: if_splits)
  with t0 show ?thesis by (simp add: moon_day_at_def)
qed

text \<open>
  Claim C7.  The one-year script records a date for a city exactly when the date lies
  in the configured year and the tithi at its local sunrise is 15 or 30; the result is the
  strictly ascending list of these dates; and a date on which the generator's detector
  reports a kshaya kind is never in it.
\<close>

theorem moon_days_for_city_dates:
  assumes "moon_days_for_city L c = Inr ds"
  shows "(\<forall>d. d \<in> set ds \<longleftrightarrow>
            YEAR_START \<le> d \<and> d \<le> YEAR_END \<and>
            (tithi_at_sunrise L d c = Inr 15 \<or> tithi_at_sunrise L d c = Inr 30))
       \<and> sorted_wrt (<) ds
       \<and> (\<forall>d k. detect_event L d c = Inr (Some k) \<and> is_kshaya k \<longrightarrow> d \<notin> set ds)"
proof -
  let ?S = "{d. YEAR_START \<le> d \<and> d \<le> YEAR_END \<and> moon_day_at L c d}"
  from moon_days_for_city_result [OF assms] have ds: "ds = sorted_list_of_set ?S" .
  have fin: "finite ?S" by (rule finite_year_days)
  from ds fin have set: "set ds = ?S" by simp
  from ds have srt: "sorted_wrt (<) ds" by (simp add: strict_sorted_iff [symmetric])
  have ksh: "\<forall>d k. detect_event L d c = Inr (Some k) \<and> is_kshaya k \<longrightarrow> d \<notin> set ds"
    using kshaya_not_moon_day set by blast
  from set have "\<forall>d. d \<in> set ds \<longleftrightarrow>
            YEAR_START \<le> d \<and> d \<le> YEAR_END \<and>
            (tithi_at_sunrise L d c = Inr 15 \<or> tithi_at_sunrise L d c = Inr 30)"
    by (simp add: moon_day_at_def)
  with srt ksh show ?thesis by blast
qed

lemma is_moon_day_total:
  assumes "libs_succeed L c"
  shows "\<exists>b. is_moon_day L d c = Inr b"
  using tithi_at_sunrise_total [OF assms, of d] by (auto simp: is_moon_day_Inr_iff)

lemma collect_moon_days_total:
  "libs_succeed L c \<Longrightarrow> \<exists>S. collect_moon_days L c d results = Inr S"
proof (induction L c d results rule: collect_moon_days.induct)
  case (1 L c d results)
  show ?case
  proof (cases "d \<le> YEAR_END")
    case True
    from is_moon_day_total [OF "1.prems"] obtain b where b: "is_moon_day L d c = Inr b" ..
    from "1.IH" [OF True b "1.prems"] obtain S where
      "collect_moon_days L c (d + 1) (if b then insert d results else results) = Inr S" ..
    with True b have "collect_moon_days L c d results = Inr S"
      by (subst collect_moon_days.simps) simp
    then show ?thesis ..
  next
    case False
    then have "collect_moon_days L c d results = Inr results"
      by (subst collect_moon_days.simps) simp
    then show ?thesis ..
  qed
qed

lemma moon_days_for_city_total:
  assumes "libs_succeed L c"
  shows "\<exists>ds. moon_days_for_city L c = Inr ds"
proof -
  from collect_moon_days_total [OF assms] obtain S where
    "collect_moon_days L c YEAR_START {} = Inr S" ..
  then show ?thesis by (simp add: moon_days_for_city_def bind_Inr)
qed

lemma kshaya_tithi_0: "tithi_at_sunrise (demo_libs demo_moon_kshaya (\<lambda>jd. False)) 739617 mysuru = Inr 14"
  by (simp add: eval_simps demo_moon_kshaya_def cong: eval_congs)

lemma kshaya_tithi_1: "tithi_at_sunrise (demo_libs demo_moon_kshaya (\<lambda>jd. False)) 739618 mysuru = Inr 16"
  by (simp add: eval_simps demo_moon_kshaya_def cong: eval_congs)

lemma kshaya_tithi_2: "tithi_at_sunrise (demo_libs demo_moon_kshaya (\<lambda>jd. False)) 739619 mysuru = Inr 30"
  by (simp add: eval_simps demo_moon_kshaya_def cong: eval_congs)

lemma kshaya_detect_0:
  "detect_event (demo_libs demo_moon_kshaya (\<lambda>jd. False)) 739617 mysuru = Inr (Some KIND_KSHAYA_PURNIMA)"
  using detect_event_eq [OF kshaya_tithi_0] kshaya_tithi_1
  by (simp add: event_rule_def skipped_over_def)

theorem moon_days_for_city_dates_witness:
  "\<exists>ds. moon_days_for_city (demo_libs demo_moon_kshaya (\<lambda>jd. False)) mysuru = Inr ds
     \<and> 739619 \<in> set ds \<and> 739617 \<notin> set ds \<and> 739618 \<notin> set ds
     \<and> detect_event (demo_libs demo_moon_kshaya (\<lambda>jd. False)) 739617 mysuru
          = Inr (Some KIND_KSHAYA_PURNIMA)
     \<and> is_kshaya KIND_KSHAYA_PURNIMA
     \<and> sorted_wrt (<) ds"
proof -
  let ?L = "demo_libs demo_moon_kshaya (\<lambda>jd. False)"
  from moon_days_for_city_total [OF demo_libs_succeed]
  obtain ds where ds: "moon_days_for_city ?L mysuru = Inr ds" by blast
  note T = moon_days_for_city_dates [OF ds]
  have k: "is_kshaya KIND_KSHAYA_PURNIMA" by (simp add: is_kshaya_def)
  from T kshaya_tithi_2 have a: "739619 \<in> set ds"
    by (simp add: YEAR_START_def YEAR_END_def)
  from T kshaya_detect_0 k have b: "739617 \<notin> set ds" by blast
  from T kshaya_tithi_1 have c: "739618 \<notin> set ds" by simp
  from T have "sorted_wrt (<) ds" by blast
  with ds a b c kshaya_detect_0 k show ?thesis by blast
qed

subsection \<open>The table\<close>

lemma mapM_Inr_iff: "mapM f xs = Inr ys \<longleftrightarrow> list_all2 (\<lambda>x y. f x = Inr y) xs ys"
proof (induction xs arbitrary: ys)
  case Nil
  then show ?case by auto
next
  case (Cons x xs)
  show ?case
    by (cases ys) (auto simp: bind_eq_Inr_iff Cons.IH)
qed

lemma mapM_pure: "mapM (\<lambda>x. Inr (g x)) xs = Inr (map g xs)"
  by (induction xs) (simp_all add: bind_Inr)

lemma moon_days_for_city_set:
  assumes "moon_days_for_city L c = Inr ds"
  shows "set ds = {d. YEAR_START \<le> d \<and> d \<le> YEAR_END \<and> moon_day_at L c d}"
  using moon_days_for_city_result [OF assms] finite_year_days [of "moon_day_at L c"] by simp

lemma year_cell_probe:
  "year_cell L d S =
     (if d \<in> S then ''''
      else if d - 1 \<in> S then isoformat L (d - 1)
      else if d + 1 \<in> S then isoformat L (d + 1)
      else if d - 2 \<in> S then isoformat L (d - 2)
      else if d + 2 \<in> S then isoformat L (d + 2)
      else ''NaN'')"
  by (simp add: year_cell_def Let_def)

lemma CITIES_split: "CITIES = (''Mysuru'', mysuru) # other_cities"
  by (simp add: CITIES_def mysuru_def other_cities_def)

lemma other_cities_names: "''Mysuru'' \<notin> fst ` set other_cities" "distinct (map fst other_cities)"
  by (simp_all add: other_cities_def)

lemma filter_other_cities:
  "filter (\<lambda>(name, c). name \<noteq> ''Mysuru'') CITIES = other_cities"
  "filter (\<lambda>name. name \<noteq> ''Mysuru'') (map fst CITIES) = map fst other_cities"
  by (simp_all add: CITIES_split) (simp_all add: other_cities_def)

lemma dict_getitem_Mysuru: "dict_getitem CITIES ''Mysuru'' = Inr mysuru"
  by (simp add: CITIES_split dict_getitem_def)

lemma mapM_cong_set: "(\<And>x. x \<in> set xs \<Longrightarrow> f x = g x) \<Longrightarrow> mapM f xs = mapM g xs"
  by (induction xs) simp_all

text \<open>The per-city sets of the table, looked up by name.\<close>

lemma city_days_lookup:
  assumes "list_all2 (\<lambda>p r. (case p of (name, c) \<Rightarrow>
              bind (moon_days_for_city L c) (\<lambda>days. Inr (name, set days))) = Inr r) cs city_days"
    and "distinct (map fst cs)"
  shows "\<exists>days_of. (\<forall>name c. (name, c) \<in> set cs \<longrightarrow>
            moon_days_for_city L c = Inr (days_of name) \<and>
            dict_getitem city_days name = Inr (set (days_of name)))"
  using assms
proof (induction cs city_days rule: list_all2_induct)
  case Nil
  then show ?case by simp
next
  case (Cons p cs r rs)
  obtain name c where p: "p = (name, c)" by (cases p)
  from Cons.hyps(1) p obtain days where d: "moon_days_for_city L c = Inr days"
    and r: "r = (name, set days)"
    by (auto simp: bind_eq_Inr_iff)
  from Cons.prems p have nin: "name \<notin> fst ` set cs" and dist: "distinct (map fst cs)"
    by auto
  from Cons.IH [OF dist] obtain days_of where IH:
    "\<forall>n c'. (n, c') \<in> set cs \<longrightarrow> moon_days_for_city L c' = Inr (days_of n) \<and>
        dict_getitem rs n = Inr (set (days_of n))" by blast
  show ?case
  proof (intro exI [of _ "days_of(name := days)"] allI impI)
    fix n c' assume "(n, c') \<in> set (p # cs)"
    then consider "n = name" "c' = c" | "(n, c') \<in> set cs" "n \<noteq> name"
      using nin p by force
    then show "moon_days_for_city L c' = Inr ((days_of(name := days)) n) \<and>
        dict_getitem (r # rs) n = Inr (set ((days_of(name := days)) n))"
    proof cases
      case 1
      with d r show ?thesis by (simp add: dict_getitem_def)
    next
      case 2
      with IH r show ?thesis by (simp add: dict_getitem_def)
    qed
  qed
qed

lemma year_generate_csv_eq:
  assumes m: "moon_days_for_city L mysuru = Inr master_days"
    and cd: "mapM (\<lambda>(name, c). bind (moon_days_for_city L c) (\<lambda>days. Inr (name, set days)))
               other_cities = Inr city_days"
  shows "\<exists>days_of.
     (\<forall>name c. (name, c) \<in> set other_cities \<longrightarrow> moon_days_for_city L c = Inr (days_of name))
     \<and> year_generate_csv L = Inr ((''Mysuru'' # map fst other_cities)
          # map (\<lambda>d. isoformat L d
                  # map (\<lambda>name. year_cell L d (set (days_of name))) (map fst other_cities))
              master_days)"
proof -
  from cd have "list_all2 (\<lambda>p r. (case p of (name, c) \<Rightarrow>
              bind (moon_days_for_city L c) (\<lambda>days. Inr (name, set days))) = Inr r) other_cities city_days"
    by (simp add: mapM_Inr_iff)
  from city_days_lookup [OF this other_cities_names(2)] obtain days_of where
    days: "\<forall>name c. (name, c) \<in> set other_cities \<longrightarrow>
            moon_days_for_city L c = Inr (days_of name) \<and>
            dict_getitem city_days name = Inr (set (days_of name))" by blast
  have inner: "mapM (\<lambda>cname. bind (dict_getitem city_days cname) (\<lambda>days. Inr (year_cell L d days)))
                 (map fst other_cities)
               = Inr (map (\<lambda>name. year_cell L d (set (days_of name))) (map fst other_cities))" for d
  proof -
    have "mapM (\<lambda>cname. bind (dict_getitem city_days cname) (\<lambda>days. Inr (year_cell L d days)))
                 (map fst other_cities)
          = mapM (\<lambda>cname. Inr (year_cell L d (set (days_of cname)))) (map fst other_cities)"
    proof (rule mapM_cong_set)
      fix x assume "x \<in> set (map fst other_cities)"
      then obtain c where "(x, c) \<in> set other_cities" by auto
      with days have "dict_getitem city_days x = Inr (set (days_of x))" by blast
      then show "bind (dict_getitem city_days x) (\<lambda>days. Inr (year_cell L d days))
                 = Inr (year_cell L d (set (days_of x)))"
        by (simp add: bind_Inr)
    qed
    then show ?thesis by (simp add: mapM_pure)
  qed
  have "year_generate_csv L = Inr ((''Mysuru'' # map fst other_cities)
          # map (\<lambda>d. isoformat L d
                  # map (\<lambda>name. year_cell L d (set (days_of name))) (map fst other_cities))
              master_days)"
    unfolding year_generate_csv_def dict_getitem_Mysuru filter_other_cities Let_def
    by (simp add: bind_Inr m cd inner mapM_pure)
  with days show ?thesis by blast
qed

lemma year_generate_csv_rows:
  assumes "year_generate_csv L = Inr rows"
  shows "\<exists>master_days days_of.
     moon_days_for_city L mysuru = Inr master_days
     \<and> (\<forall>name c. (name, c) \<in> set other_cities \<longrightarrow> moon_days_for_city L c = Inr (days_of name))
     \<and> rows = (''Mysuru'' # map fst other_cities)
          # map (\<lambda>d. isoformat L d
                  # map (\<lambda>name. year_cell L d (set (days_of name))) (map fst other_cities))
              master_days"
proof -
  from assms obtain master_days city_days where
    m: "moon_days_for_city L mysuru = Inr master_days"
    and cd: "mapM (\<lambda>(name, c). bind (moon_days_for_city L c) (\<lambda>days. Inr (name, set days)))
               other_cities = Inr city_days"
    unfolding year_generate_csv_def dict_getitem_Mysuru filter_other_cities Let_def bind_Inr
    by (auto simp: bind_eq_Inr_iff)
  from year_generate_csv_eq [OF m cd] assms m show ?thesis by auto
qed

lemma mapM_total: "(\<And>x. x \<in> set xs \<Longrightarrow> \<exists>y. f x = Inr y) \<Longrightarrow> \<exists>ys. mapM f xs = Inr ys"
proof (induction xs)
  case Nil
  then show ?case by simp
next
  case (Cons x xs)
  from Cons.prems obtain y where y: "f x = Inr y" by auto
  from Cons obtain ys where "mapM f xs = Inr ys" by auto
  with y show ?case by (simp add: bind_Inr)
qed

lemma year_generate_csv_total:
  assumes "\<And>c. libs_succeed L c"
  shows "\<exists>rows. year_generate_csv L = Inr rows"
proof -
  from moon_days_for_city_total [OF assms] obtain master_days where
    m: "moon_days_for_city L mysuru = Inr master_days" by blast
  have "\<exists>city_days. mapM (\<lambda>(name, c). bind (moon_days_for_city L c) (\<lambda>days. Inr (name, set days)))
               other_cities = Inr city_days"
  proof (rule mapM_total)
    fix x :: "string \<times> city"
    obtain name c where x: "x = (name, c)" by (cases x)
    from moon_days_for_city_total [OF assms] obtain ds where "moon_days_for_city L c = Inr ds" by blast
    with x show "\<exists>y. (case x of (name, c) \<Rightarrow> bind (moon_days_for_city L c) (\<lambda>days. Inr (name, set days))) = Inr y"
      by (simp add: bind_Inr)
  qed
  then obtain city_days where cd: "mapM (\<lambda>(name, c). bind (moon_days_for_city L c) (\<lambda>days. Inr (name, set days)))
               other_cities = Inr city_days" ..
  from year_generate_csv_eq [OF m cd] show ?thesis by blast
qed

text \<open>
  Claim C10.  In the CSV of the one-year script, the row of a master moon day \<open>d\<close> holds,
  for every other city, a cell found by probing the moon days of that city at the day
  offsets 0, -1, +1, -2, +2 in this order: the cell is blank when \<open>d\<close> itself is a moon day
  of the city, else the first of the dates \<open>d - 1\<close>, \<open>d + 1\<close>, \<open>d - 2\<close>, \<open>d + 2\<close> that is
  one, in ISO format, and \<^verbatim>\<open>NaN\<close> when none of the five is.
\<close>

theorem year_csv_cells:
  assumes "year_generate_csv L = Inr rows"
  shows "\<exists>master_days days_of.
     (\<forall>c. map_of CITIES ''Mysuru'' = Some c \<longrightarrow> moon_days_for_city L c = Inr master_days)
     \<and> (\<forall>name c. (name, c) \<in> set CITIES \<and> name \<noteq> ''Mysuru'' \<longrightarrow>
           moon_days_for_city L c = Inr (days_of name))
     \<and> rows = (''Mysuru'' # filter (\<lambda>name. name \<noteq> ''Mysuru'') (map fst CITIES))
          # map (\<lambda>d. isoformat L d
                  # map (\<lambda>name.
                        if d \<in> set (days_of name) then []
                        else if d - 1 \<in> set (days_of name) then isoformat L (d - 1)
                        else if d + 1 \<in> set (days_of name) then isoformat L (d + 1)
                        else if d - 2 \<in> set (days_of name) then isoformat L (d - 2)
                        else if d + 2 \<in> set (days_of name) then isoformat L (d + 2)
                        else ''NaN'')
                      (filter (\<lambda>name. name \<noteq> ''Mysuru'') (map fst CITIES)))
              master_days"
proof -
  from year_generate_csv_rows [OF assms] obtain master_days days_of where
    m: "moon_days_for_city L mysuru = Inr master_days"
    and o: "\<forall>name c. (name, c) \<in> set other_cities \<longrightarrow> moon_days_for_city L c = Inr (days_of name)"
    and r: "rows = (''Mysuru'' # map fst other_cities)
          # map (\<lambda>d. isoformat L d
                  # map (\<lambda>name. year_cell L d (set (days_of name))) (map fst other_cities))
              master_days" by blast
  have a: "\<forall>c. map_of CITIES ''Mysuru'' = Some c \<longrightarrow> moon_days_for_city L c = Inr master_days"
    using m by (simp add: CITIES_split)
  have b: "\<forall>name c. (name, c) \<in> set CITIES \<and> name \<noteq> ''Mysuru'' \<longrightarrow>
           moon_days_for_city L c = Inr (days_of name)"
    using o by (auto simp: CITIES_split)
  from r have c: "rows = (''Mysuru'' # filter (\<lambda>name. name \<noteq> ''Mysuru'') (map fst CITIES))
          # map (\<lambda>d. isoformat L d
                  # map (\<lambda>name.
                        if d \<in> set (days_of name) then []
                        else if d - 1 \<in> set (days_of name) then isoformat L (d - 1)
                        else if d + 1 \<in> set (days_of name) then isoformat L (d + 1)
                        else if d - 2 \<in> set (days_of name) then isoformat L (d - 2)
                        else if d + 2 \<in> set (days_of name) then isoformat L (d + 2)
                        else ''NaN'')
                      (filter (\<lambda>name. name \<noteq> ''Mysuru'') (map fst CITIES)))
              master_days"
    unfolding filter_other_cities year_cell_probe by simp
  from a b c show ?thesis by blast
qed

lemma shift_tithi_mysuru_3: "tithi_at_sunrise (demo_libs demo_moon_shift (\<lambda>jd. False)) 739620 mysuru = Inr 30"
  by (simp add: eval_simps demo_moon_shift_def cong: eval_congs)

lemma shift_tithi_moscow_2: "tithi_at_sunrise (demo_libs demo_moon_shift (\<lambda>jd. False)) 739619 moscow = Inr 30"
  by (simp add: eval_simps demo_moon_shift_def cong: eval_congs)

lemma shift_tithi_moscow_3: "tithi_at_sunrise (demo_libs demo_moon_shift (\<lambda>jd. False)) 739620 moscow = Inr 1"
  by (simp add: eval_simps demo_moon_shift_def cong: eval_congs)

lemma demo_isoformat_0103: "isoformat (demo_libs moon no_rise) 739619 = ''2026-01-03''"
  by code_simp

lemma demo_isoformat_0104: "isoformat (demo_libs moon no_rise) 739620 = ''2026-01-04''"
  by code_simp

lemma other_names: "filter (\<lambda>name. name \<noteq> ''Mysuru'') (map fst CITIES) =
    [''Moscow'', ''Saint-Petersburg'', ''Yekaterinburg'', ''Krasnaya Polyana'', ''Novosibirsk'',
     ''Minsk'', ''Kyiv'', ''Astana'', ''Almaty'']"
  by (simp add: filter_other_cities other_cities_def)

theorem year_csv_cells_witness:
  "\<exists>rows. year_generate_csv (demo_libs demo_moon_shift (\<lambda>jd. False)) = Inr rows
     \<and> hd rows = [''Mysuru'', ''Moscow'', ''Saint-Petersburg'', ''Yekaterinburg'',
                   ''Krasnaya Polyana'', ''Novosibirsk'', ''Minsk'', ''Kyiv'', ''Astana'', ''Almaty'']
     \<and> (\<exists>row\<in>set rows. take 2 row = [''2026-01-04'', ''2026-01-03''])"
proof -
  let ?L = "demo_libs demo_moon_shift (\<lambda>jd. False)"
  from year_generate_csv_total [of ?L] demo_libs_succeed
  obtain rows where rows: "year_generate_csv ?L = Inr rows" by blast
  from year_csv_cells [OF rows] obtain master_days days_of where
    a: "\<forall>c. map_of CITIES ''Mysuru'' = Some c \<longrightarrow> moon_days_for_city ?L c = Inr master_days"
    and b: "\<forall>name c. (name, c) \<in> set CITIES \<and> name \<noteq> ''Mysuru'' \<longrightarrow>
           moon_days_for_city ?L c = Inr (days_of name)"
    and c: "rows = (''Mysuru'' # filter (\<lambda>name. name \<noteq> ''Mysuru'') (map fst CITIES))
          # map (\<lambda>d. isoformat ?L d
                  # map (\<lambda>name.
                        if d \<in> set (days_of name) then []
                        else if d - 1 \<in> set (days_of name) then isoformat ?L (d - 1)
                        else if d + 1 \<in> set (days_of name) then isoformat ?L (d + 1)
                        else if d - 2 \<in> set (days_of name) then isoformat ?L (d - 2)
                        else if d + 2 \<in> set (days_of name) then isoformat ?L (d + 2)
                        else ''NaN'')
                      (filter (\<lambda>name. name \<noteq> ''Mysuru'') (map fst CITIES)))
              master_days"
    by blast
  from a have "moon_days_for_city ?L mysuru = Inr master_days"
    by (simp add: CITIES_split)
  from moon_days_for_city_set [OF this] shift_tithi_mysuru_3
  have m: "739620 \<in> set master_days"
    by (simp add: moon_day_at_def YEAR_START_def YEAR_END_def)
  have "(''Moscow'', moscow) \<in> set CITIES" by (simp add: CITIES_def moscow_def)
  with b have "moon_days_for_city ?L moscow = Inr (days_of ''Moscow'')" by auto
  from moon_days_for_city_set [OF this] shift_tithi_moscow_2 shift_tithi_moscow_3
  have s: "739620 \<notin> set (days_of ''Moscow'')" "739619 \<in> set (days_of ''Moscow'')"
    by (simp_all add: moon_day_at_def YEAR_START_def YEAR_END_def)
  let ?row = "isoformat ?L 739620
                  # map (\<lambda>name.
                        if 739620 \<in> set (days_of name) then []
                        else if 739620 - 1 \<in> set (days_of name) then isoformat ?L (739620 - 1)
                        else if 739620 + 1 \<in> set (days_of name) then isoformat ?L (739620 + 1)
                        else if 739620 - 2 \<in> set (days_of name) then isoformat ?L (739620 - 2)
                        else if 739620 + 2 \<in> set (days_of name) then isoformat ?L (739620 + 2)
                        else ''NaN'')
                      (filter (\<lambda>name. name \<noteq> ''Mysuru'') (map fst CITIES))"
  from c m have r: "?row \<in> set rows" by auto
  have t: "take 2 ?row = [''2026-01-04'', ''2026-01-03'']"
    unfolding other_names using s by (simp add: demo_isoformat_0103 demo_isoformat_0104)
  from c have h: "hd rows = [''Mysuru'', ''Moscow'', ''Saint-Petersburg'', ''Yekaterinburg'',
                   ''Krasnaya Polyana'', ''Novosibirsk'', ''Minsk'', ''Kyiv'', ''Astana'', ''Almaty'']"
    by (simp add: other_names)
  from rows h r t show ?thesis by blast
qed

end
